theory Spec2Isabelle
  imports Main "HOL-Library.Sublist"
begin

section \<open>Time\<close>

text \<open>
  Python's \<open>datetime\<close> has microsecond resolution. A point in time is the number of
  microseconds since a fixed origin, a \<open>timedelta\<close> is a difference of two of them.
  \<open>timedelta.days\<close> is the floor of the duration divided by one day, which is what
  \<open>div\<close> on \<open>int\<close> computes.
\<close>

type_synonym time = int

definition minute :: int where
  "minute = 60000000"

definition day :: int where
  "day = 86400000000"

definition timedelta_days :: "int \<Rightarrow> int" where
  "timedelta_days d = d div day"

section \<open>Strings\<close>

text \<open>
  \<open>str.lower()\<close> on the letters A to Z (a \<open>char\<close> is a byte, so letters outside ASCII
  are left as they are), the substring test \<open>needle in haystack\<close> and \<open>sep.join(xs)\<close>.
\<close>

definition lower_char :: "char \<Rightarrow> char" where
  "lower_char c =
     (case map_of (zip ''ABCDEFGHIJKLMNOPQRSTUVWXYZ'' ''abcdefghijklmnopqrstuvwxyz'') c of
        Some l \<Rightarrow> l
      | None \<Rightarrow> c)"

definition lower :: "string \<Rightarrow> string" where
  "lower s = map lower_char s"

fun str_in :: "string \<Rightarrow> string \<Rightarrow> bool" where
  "str_in needle [] = (needle = [])"
| "str_in needle (c # cs) = (prefix needle (c # cs) \<or> str_in needle cs)"

fun join :: "string \<Rightarrow> string list \<Rightarrow> string" where
  "join sep [] = []"
| "join sep [x] = x"
| "join sep (x # y # ys) = x @ sep @ join sep (y # ys)"

section \<open>Data model\<close>

text \<open>
  A row of the job frame: the keys of the dictionary built by
  \<open>LinkedInScraperFree.parse_job_card\<close> that the engine reads, and the \<open>quality_score\<close>
  column that \<open>search_jobs_for_user\<close> adds. \<open>job_url\<close> is \<open>None\<close> when the card's link has
  no \<open>href\<close>. \<open>posted_date\<close> is the ISO string of the card already read by
  \<open>datetime.fromisoformat\<close> with its time zone dropped: \<open>None\<close> stands for an absent or
  empty value and for a string that does not parse (the source swallows that exception).
  \<open>salary_min\<close> is \<open>None\<close> where the frame has no such column or holds NaN.
\<close>

record job_row =
  title :: string
  company :: string
  location :: string
  job_url :: "string option"
  posted_date :: "time option"
  salary_min :: "int option"
  quality_score :: int

text \<open>
  The dataclass \<open>UserPreferences\<close> of \<open>multi_user_system.py\<close>; its field \<open>keywords\<close> is
  \<open>keywords_list\<close> here.
\<close>

record preferences =
  user_id :: string
  keywords_list :: "string list"
  exclude_keywords :: "string list"
  locations :: "string list"
  min_salary :: int
  max_salary :: int
  sites_enabled :: "string list"
  search_frequency_minutes :: int
  linkedin_quality_threshold :: int
  max_hours_old :: int
  time_filter :: string
  work_type :: string
  ultra_recent_mode :: bool
  first_applicant_mode :: bool

text \<open>The dataclass \<open>User\<close>.\<close>

record user =
  u_id :: string
  u_email :: string
  u_name :: string
  u_is_active :: bool

datatype exn = RegexError | ZeroDivisionError

section \<open>Rate gateway: \<open>ContinuousSearchEngine.check_rate_limit\<close>\<close>

text \<open>
  The two fields of the engine that the rate check reads and writes
  (\<open>self.linkedin_requests_per_minute\<close>, \<open>self.linkedin_last_requests\<close>). The clock
  reading \<open>datetime.now()\<close> taken at the start of the call is the argument \<open>now\<close>.
\<close>

record rate_gateway =
  linkedin_requests_per_minute :: nat
  linkedin_last_requests :: "time list"

definition check_rate_limit :: "time \<Rightarrow> rate_gateway \<Rightarrow> bool \<times> rate_gateway" where
  "check_rate_limit now g =
     (let recent = filter (\<lambda>req_time. now - req_time < minute) (linkedin_last_requests g);
          g1 = g\<lparr>linkedin_last_requests := recent\<rparr>
      in if length recent \<ge> linkedin_requests_per_minute g then (False, g1)
         else (True, g1\<lparr>linkedin_last_requests := recent @ [now]\<rparr>))"

text \<open>A sequence of calls, each with the clock reading at which it is made.\<close>

fun acquire_all :: "rate_gateway \<Rightarrow> time list \<Rightarrow> bool list \<times> rate_gateway" where
  "acquire_all g [] = ([], g)"
| "acquire_all g (t # ts) =
     (case check_rate_limit t g of (b, g1) \<Rightarrow>
        (case acquire_all g1 ts of (bs, g2) \<Rightarrow> (b # bs, g2)))"

definition count_true :: "bool list \<Rightarrow> nat" where
  "count_true bs = length (filter (\<lambda>b. b) bs)"

text \<open>The recorded calls that no call made before \<open>t0 + minute\<close> prunes.\<close>

definition held :: "time \<Rightarrow> rate_gateway \<Rightarrow> nat" where
  "held t0 g = length (filter (\<lambda>r. t0 \<le> r) (linkedin_last_requests g))"

section \<open>Scoring: \<open>ContinuousSearchEngine.calculate_quality_score\<close>\<close>

text \<open>
  The source reads the clock itself (\<open>datetime.now()\<close> inside the freshness block); the
  reading is the argument \<open>now\<close> of the model. Each loop of the source is a recursive
  function over the list it walks, with the running value as an argument. The outer
  \<open>except\<close> branch (return 50) is not reachable on a row and preferences of these types.
\<close>

fun count_keyword_matches :: "string list \<Rightarrow> string \<Rightarrow> nat \<Rightarrow> nat" where
  "count_keyword_matches [] t keyword_matches = keyword_matches"
| "count_keyword_matches (keyword # rest) t keyword_matches =
     count_keyword_matches rest t
       (if str_in (lower keyword) t then keyword_matches + 1 else keyword_matches)"

text \<open>The location loop stops at the first match (\<open>break\<close>).\<close>

fun location_loop :: "string list \<Rightarrow> string \<Rightarrow> int \<Rightarrow> int" where
  "location_loop [] loc score = score"
| "location_loop (pref_location # rest) loc score =
     (if str_in (lower pref_location) loc then score + 20
      else location_loop rest loc score)"

definition reputable_companies :: "string list" where
  "reputable_companies =
     [''google'', ''microsoft'', ''amazon'', ''apple'', ''meta'', ''netflix'', ''uber'', ''airbnb'']"

definition freshness :: "time \<Rightarrow> time option \<Rightarrow> int \<Rightarrow> int" where
  "freshness now pd score =
     (case pd of
        None \<Rightarrow> score
      | Some job_date \<Rightarrow>
          (let days_old = timedelta_days (now - job_date)
           in if days_old \<le> 1 then score + 10
              else if days_old \<le> 3 then score + 5
              else score))"

text \<open>The exclude loop has no \<open>break\<close>: it runs over every exclude keyword.\<close>

fun exclude_loop :: "string list \<Rightarrow> string \<Rightarrow> int \<Rightarrow> int" where
  "exclude_loop [] t score = score"
| "exclude_loop (exclude_keyword # rest) t score =
     exclude_loop rest t (if str_in (lower exclude_keyword) t then score - 20 else score)"

definition calculate_quality_score :: "time \<Rightarrow> job_row \<Rightarrow> preferences \<Rightarrow> int" where
  "calculate_quality_score now job_row prefs =
     (let score = 50;
          t = lower (title job_row);
          c = lower (company job_row);
          loc = lower (location job_row);
          keyword_matches = count_keyword_matches (keywords_list prefs) t 0;
          score = (if keyword_matches > 0 then score + min 30 (int keyword_matches * 10)
                   else score);
          score = location_loop (locations prefs) loc score;
          score = (if list_ex (\<lambda>comp. str_in comp c) reputable_companies then score + 10
                   else score);
          score = freshness now (posted_date job_row) score;
          score = exclude_loop (exclude_keywords prefs) t score
      in min 100 (max 0 score))"

text \<open>
  The parts of the score, read off the source: the bonus the freshness block adds, the
  keyword, location and employer bonuses, and the number of exclude keywords found in
  the title.
\<close>

definition recency_bonus :: "time \<Rightarrow> job_row \<Rightarrow> int" where
  "recency_bonus now job_row = freshness now (posted_date job_row) 0"

definition keyword_bonus :: "job_row \<Rightarrow> preferences \<Rightarrow> int" where
  "keyword_bonus job_row prefs =
     min 30 (10 * int (length (filter (\<lambda>k. str_in (lower k) (lower (title job_row)))
                                 (keywords_list prefs))))"

definition location_bonus :: "job_row \<Rightarrow> preferences \<Rightarrow> int" where
  "location_bonus job_row prefs =
     (if list_ex (\<lambda>l. str_in (lower l) (lower (location job_row))) (locations prefs)
      then 20 else 0)"

definition employer_bonus :: "job_row \<Rightarrow> int" where
  "employer_bonus job_row =
     (if list_ex (\<lambda>comp. str_in comp (lower (company job_row))) reputable_companies
      then 10 else 0)"

definition exclude_hits :: "job_row \<Rightarrow> preferences \<Rightarrow> nat" where
  "exclude_hits job_row prefs =
     length (filter (\<lambda>k. str_in (lower k) (lower (title job_row))) (exclude_keywords prefs))"

text \<open>
  The score as the specification words it: a baseline of 50, at most 30 for keyword
  matches in the title, 20 for a location match, 10 for a well-known employer, 10 for a
  posting posted within 1 day or 5 for one posted within 3 days, minus 20 if any exclude
  keyword appears in the title, clamped to 0..100. A posting is posted within \<open>n\<close> days
  when its date lies between \<open>now - n * day\<close> and \<open>now\<close>.
\<close>

definition spec_recency :: "time \<Rightarrow> job_row \<Rightarrow> int" where
  "spec_recency now job_row =
     (case posted_date job_row of
        None \<Rightarrow> 0
      | Some d \<Rightarrow>
          if now - day \<le> d \<and> d \<le> now then 10
          else if now - 3 * day \<le> d \<and> d \<le> now then 5
          else 0)"

definition spec_score :: "time \<Rightarrow> job_row \<Rightarrow> preferences \<Rightarrow> int" where
  "spec_score now job_row prefs =
     min 100 (max 0
       (50 + keyword_bonus job_row prefs + location_bonus job_row prefs
           + employer_bonus job_row + spec_recency now job_row
           - (if exclude_hits job_row prefs > 0 then 20 else 0)))"

text \<open>The part of the score that does not look at the clock.\<close>

definition static_score :: "job_row \<Rightarrow> preferences \<Rightarrow> int" where
  "static_score job_row prefs =
     50 + keyword_bonus job_row prefs + location_bonus job_row prefs
        + employer_bonus job_row - 20 * int (exclude_hits job_row prefs)"

section \<open>Filtering: \<open>ContinuousSearchEngine.filter_jobs_for_user\<close>\<close>

text \<open>
  \<open>Series.str.contains(pattern, case=False, na=False)\<close> compiles \<open>pattern\<close> as a regular
  expression and searches every title with it. The regular-expression library is a
  parameter \<open>re_compile\<close>: \<open>None\<close> when the pattern does not compile (the call raises),
  else the case-insensitive search predicate. The frame always has the
  \<open>quality_score\<close> column when the engine calls the filter. The job-age block of the
  source computes a cutoff and filters nothing.
\<close>

type_synonym regex_lib = "string \<Rightarrow> (string \<Rightarrow> bool) option"

definition filter_jobs_for_user ::
    "regex_lib \<Rightarrow> job_row list \<Rightarrow> preferences \<Rightarrow> exn + job_row list" where
  "filter_jobs_for_user re_compile jobs_df prefs =
     (if jobs_df = [] then Inr jobs_df
      else
        let filtered_jobs =
              filter (\<lambda>j. quality_score j \<ge> linkedin_quality_threshold prefs) jobs_df;
            filtered_jobs =
              (if min_salary prefs > 0
               then filter (\<lambda>j. case salary_min j of None \<Rightarrow> True
                                   | Some s \<Rightarrow> s \<ge> min_salary prefs) filtered_jobs
               else filtered_jobs)
        in if exclude_keywords prefs \<noteq> []
           then (case re_compile (join ''|'' (exclude_keywords prefs)) of
                   None \<Rightarrow> Inl RegexError
                 | Some search \<Rightarrow> Inr (filter (\<lambda>j. \<not> search (title j)) filtered_jobs))
           else Inr filtered_jobs)"

section \<open>The record store\<close>

text \<open>
  The tables \<open>jobs\<close> and \<open>user_jobs\<close> of the SQLite file, as lists of rows in insertion
  order, with the columns the engine writes. \<open>uuid.uuid4()\<close> is a counter in the engine
  state: each draw returns it and increments it. A statement that fails on SQLite's side
  (a locked file, a full disk) is not modelled: every statement runs.
\<close>

type_synonym uuid = nat

record job_data =
  d_external_id :: string
  d_title :: string
  d_company :: string
  d_location :: string
  d_salary_min :: "int option"
  d_job_url :: string
  d_site_source :: string
  d_quality_score :: int
  d_posted_date :: "time option"

record jobs_record =
  j_id :: uuid
  j_data :: job_data

record user_jobs_record =
  uj_id :: uuid
  uj_user_id :: string
  uj_job_id :: uuid
  uj_match_score :: int
  uj_is_notified :: bool
  uj_is_applied :: bool
  uj_is_saved :: bool
  uj_is_hidden :: bool

record database =
  users :: "user list"
  user_preferences :: "preferences list"
  jobs :: "jobs_record list"
  user_jobs :: "user_jobs_record list"

text \<open>
  The engine: its store, its rate gateway, the uuid supply, \<open>self.last_search_times\<close>,
  whether \<open>config['email']['sender_email']\<close> is set, and the digests handed to the SMTP
  server so far (recipient and rows).
\<close>

record engine =
  db :: database
  gateway :: rate_gateway
  uuid_next :: uuid
  last_search_times :: "string \<rightharpoonup> time"
  email_configured :: bool
  outbox :: "(string \<times> job_row list) list"

definition get_user_by_id :: "string \<Rightarrow> engine \<Rightarrow> user option" where
  "get_user_by_id uid e = find (\<lambda>u. u_id u = uid) (users (db e))"

definition get_user_preferences :: "string \<Rightarrow> engine \<Rightarrow> preferences option" where
  "get_user_preferences uid e = find (\<lambda>p. user_id p = uid) (user_preferences (db e))"

text \<open>
  \<open>MultiUserManager.get_user_job_status\<close>: the first row of \<open>user_jobs\<close> of this user
  that joins a row of \<open>jobs\<close> with this URL.
\<close>

definition get_user_job_status :: "string \<Rightarrow> string \<Rightarrow> engine \<Rightarrow> user_jobs_record option" where
  "get_user_job_status uid url e =
     find (\<lambda>uj. uj_user_id uj = uid \<and>
                list_ex (\<lambda>j. j_id j = uj_job_id uj \<and> d_job_url (j_data j) = url) (jobs (db e)))
          (user_jobs (db e))"

definition get_existing_job_id :: "string \<Rightarrow> engine \<Rightarrow> uuid option" where
  "get_existing_job_id url e =
     map_option j_id (find (\<lambda>j. d_job_url (j_data j) = url) (jobs (db e)))"

text \<open>
  \<open>save_job_to_db\<close>: \<open>INSERT OR IGNORE\<close> skips the row when it breaks the primary key
  or \<open>UNIQUE(external_id, site_source)\<close>; the function then returns the id of a stored
  row with the same URL, if there is one.
\<close>

definition save_job_to_db :: "job_data \<Rightarrow> engine \<Rightarrow> uuid option \<times> engine" where
  "save_job_to_db d e =
     (let job_id = uuid_next e;
          e1 = e\<lparr>uuid_next := Suc job_id\<rparr>;
          success = \<not> list_ex (\<lambda>j. j_id j = job_id \<or>
                        (d_external_id (j_data j) = d_external_id d \<and>
                         d_site_source (j_data j) = d_site_source d)) (jobs (db e))
      in if success
         then (Some job_id,
               e1\<lparr>db := (db e)\<lparr>jobs := jobs (db e) @ [\<lparr>j_id = job_id, j_data = d\<rparr>]\<rparr>\<rparr>)
         else (get_existing_job_id (d_job_url d) e1, e1))"

text \<open>
  \<open>create_user_job_relationship\<close>: \<open>INSERT OR IGNORE\<close> against the primary key and
  \<open>UNIQUE(user_id, job_id)\<close>; the function returns True whether a row was inserted or not.
\<close>

definition create_user_job_relationship ::
    "string \<Rightarrow> uuid \<Rightarrow> int \<Rightarrow> engine \<Rightarrow> bool \<times> engine" where
  "create_user_job_relationship uid job_id match_score e =
     (let relationship_id = uuid_next e;
          e1 = e\<lparr>uuid_next := Suc relationship_id\<rparr>;
          success = \<not> list_ex (\<lambda>uj. uj_id uj = relationship_id \<or>
                        (uj_user_id uj = uid \<and> uj_job_id uj = job_id)) (user_jobs (db e))
      in if success
         then (True,
               e1\<lparr>db := (db e)\<lparr>user_jobs := user_jobs (db e) @
                 [\<lparr>uj_id = relationship_id, uj_user_id = uid, uj_job_id = job_id,
                   uj_match_score = match_score, uj_is_notified = False,
                   uj_is_applied = False, uj_is_saved = False, uj_is_hidden = False\<rparr>]\<rparr>\<rparr>)
         else (True, e1))"

section \<open>Deduplication and persistence: \<open>save_jobs_for_user\<close>\<close>

text \<open>
  A frame row has no \<open>site_source\<close>, \<open>description\<close> or \<open>salary_max\<close> key, so
  \<open>job.get('site_source', 'linkedin')\<close> is \<open>'linkedin'\<close> for every row.
\<close>

definition job_data_of :: "string \<Rightarrow> job_row \<Rightarrow> job_data" where
  "job_data_of url job =
     \<lparr>d_external_id = url, d_title = title job, d_company = company job,
      d_location = location job, d_salary_min = salary_min job, d_job_url = url,
      d_site_source = ''linkedin'', d_quality_score = quality_score job,
      d_posted_date = posted_date job\<rparr>"

text \<open>\<open>job.get('job_url', '')\<close>, with \<open>None\<close> read as the empty string it is tested like.\<close>

definition url_of :: "job_row \<Rightarrow> string" where
  "url_of job = (case job_url job of None \<Rightarrow> [] | Some u \<Rightarrow> u)"

text \<open>The body of the loop over the rows, for one row.\<close>

definition save_one :: "string \<Rightarrow> job_row \<Rightarrow> job_row list \<times> engine \<Rightarrow> job_row list \<times> engine" where
  "save_one uid job st =
     (case st of (new_jobs, e) \<Rightarrow>
        (let url = url_of job
         in if url = [] then (new_jobs, e)
            else (case get_user_job_status uid url e of
                    Some existing_status \<Rightarrow> (new_jobs, e)
                  | None \<Rightarrow>
                      (case save_job_to_db (job_data_of url job) e of
                         (None, e1) \<Rightarrow> (new_jobs, e1)
                       | (Some job_id, e1) \<Rightarrow>
                           (case create_user_job_relationship uid job_id (quality_score job) e1 of
                              (relationship_created, e2) \<Rightarrow>
                                if relationship_created then (new_jobs @ [job], e2)
                                else (new_jobs, e2))))))"

fun save_loop :: "string \<Rightarrow> job_row list \<Rightarrow> job_row list \<times> engine \<Rightarrow> job_row list \<times> engine" where
  "save_loop uid [] st = st"
| "save_loop uid (job # rest) st = save_loop uid rest (save_one uid job st)"

definition save_jobs_for_user :: "string \<Rightarrow> job_row list \<Rightarrow> engine \<Rightarrow> job_row list \<times> engine" where
  "save_jobs_for_user uid jobs_df e =
     (if jobs_df = [] then ([], e) else save_loop uid jobs_df ([], e))"

definition has_url :: "job_row \<Rightarrow> bool" where
  "has_url job = (url_of job \<noteq> [])"

section \<open>Notification: \<open>send_job_notifications\<close>\<close>

text \<open>
  \<open>smtp_ok\<close> says whether \<open>send_email\<close> returns (True) or raises (False). After the send
  the source walks the rows with a loop whose body is \<open>pass\<close>: it writes nothing.
\<close>

definition send_job_notifications :: "bool \<Rightarrow> user \<Rightarrow> job_row list \<Rightarrow> engine \<Rightarrow> engine" where
  "send_job_notifications smtp_ok usr jobs_df e =
     (if jobs_df = [] then e
      else if \<not> email_configured e then e
      else if smtp_ok then e\<lparr>outbox := outbox e @ [(u_email usr, jobs_df)]\<rparr>
      else e)"

section \<open>Source adapter: \<open>LinkedInScraperFree.method_1_guest_api\<close>\<close>

text \<open>
  What the source answers to one request: status 429, another status that is not 200,
  status 200 with the cards of the page (each card as \<open>parse_job_card\<close> reads it,
  \<open>None\<close> when it raises), or no answer (\<open>session.get\<close> raises). The source is a function
  from the number of requests this call has issued before and the request to the answer.
\<close>

datatype response = Status429 | StatusOther | Status200 "job_row option list" | RequestFailed

record request =
  rq_keywords :: string
  rq_location :: string
  rq_start :: nat
  rq_count :: nat
  rq_f_TPR :: string
  rq_f_WT :: string

type_synonym source = "nat \<Rightarrow> request \<Rightarrow> response"

text \<open>The loop over the cards of one page.\<close>

fun add_cards :: "nat \<Rightarrow> job_row list \<Rightarrow> job_row option list \<Rightarrow> job_row list" where
  "add_cards max_results jobs_acc [] = jobs_acc"
| "add_cards max_results jobs_acc (job_card # rest) =
     (let jobs1 = (case job_card of Some job \<Rightarrow> jobs_acc @ [job] | None \<Rightarrow> jobs_acc)
      in if length jobs1 \<ge> max_results then jobs1
         else add_cards max_results jobs1 rest)"

text \<open>
  The \<open>while\<close> loop. Its state is the list \<open>jobs\<close>, the offset \<open>start\<close> and the number \<open>n\<close>
  of requests issued so far; the result is the list and the number of requests. On
  status 429 the source sleeps and runs the loop again with the same offset; a run of
  the loop that never ends is the value \<open>None\<close>.
\<close>

partial_function (option) guest_api_loop ::
    "source \<Rightarrow> string \<Rightarrow> string \<Rightarrow> nat \<Rightarrow> string \<Rightarrow> string \<Rightarrow>
     job_row list \<Rightarrow> nat \<Rightarrow> nat \<Rightarrow> (job_row list \<times> nat) option" where
  "guest_api_loop src kw loc max_results tf wt jobs_acc start n =
     (if length jobs_acc < max_results \<and> start < 200 then
        (case src n \<lparr>rq_keywords = kw, rq_location = loc, rq_start = start, rq_count = 25,
                     rq_f_TPR = tf, rq_f_WT = wt\<rparr> of
           Status429 \<Rightarrow> guest_api_loop src kw loc max_results tf wt jobs_acc start (Suc n)
         | StatusOther \<Rightarrow> Some (jobs_acc, Suc n)
         | RequestFailed \<Rightarrow> Some (jobs_acc, Suc n)
         | Status200 job_cards \<Rightarrow>
             if job_cards = [] then Some (jobs_acc, Suc n)
             else guest_api_loop src kw loc max_results tf wt
                    (add_cards max_results jobs_acc job_cards) (start + 25) (Suc n))
      else Some (jobs_acc, n))"

definition method_1_guest_api ::
    "source \<Rightarrow> string \<Rightarrow> string \<Rightarrow> nat \<Rightarrow> string \<Rightarrow> string \<Rightarrow> (job_row list \<times> nat) option" where
  "method_1_guest_api src kw loc max_results tf wt =
     guest_api_loop src kw loc max_results tf wt [] 0 0"

section \<open>One cycle: \<open>ContinuousSearchEngine.search_jobs_for_user\<close>\<close>

text \<open>
  What a cycle takes from outside the engine: the clock reading of the rate check, the
  clock reading when row \<open>j\<close> of the \<open>k\<close>-th adapter call is scored, the clock reading at
  the end, the regular-expression library, what the source answers during the \<open>k\<close>-th
  adapter call, and whether the SMTP server accepts the digest.
\<close>

record world =
  w_gate_time :: time
  w_score_time :: "nat \<Rightarrow> nat \<Rightarrow> time"
  w_end_time :: time
  w_re_compile :: regex_lib
  w_upstream :: "nat \<Rightarrow> source"
  w_smtp_ok :: bool

text \<open>What a cycle did: the answers of the rate gateway and the number of requests.\<close>

record cycle_log =
  acquired :: "bool list"
  requests :: nat

text \<open>\<open>linkedin_jobs.apply(lambda row: self.calculate_quality_score(row, preferences), axis=1)\<close>\<close>

fun add_quality_scores ::
    "(nat \<Rightarrow> time) \<Rightarrow> preferences \<Rightarrow> nat \<Rightarrow> job_row list \<Rightarrow> job_row list" where
  "add_quality_scores clock prefs j [] = []"
| "add_quality_scores clock prefs j (row # rest) =
     row\<lparr>quality_score := calculate_quality_score (clock j) row prefs\<rparr>
       # add_quality_scores clock prefs (Suc j) rest"

text \<open>\<open>drop_duplicates(subset=['job_url'], keep='first')\<close>\<close>

fun drop_duplicates :: "job_row list \<Rightarrow> job_row list" where
  "drop_duplicates [] = []"
| "drop_duplicates (row # rest) =
     row # drop_duplicates (filter (\<lambda>r. job_url r \<noteq> job_url row) rest)"

definition search_time_filter :: "preferences \<Rightarrow> string" where
  "search_time_filter prefs =
     (let tf = time_filter prefs;
          tf = (if ultra_recent_mode prefs then ''r600'' else tf);
          tf = (if first_applicant_mode prefs then ''r300'' else tf)
      in tf)"

text \<open>
  The two nested loops over \<open>keywords[:3]\<close> and \<open>locations[:2]\<close>, as one loop over the
  pairs in the order the source visits them. \<open>k\<close> counts the pairs visited, \<open>all_jobs\<close>
  and \<open>reqs\<close> are the frames collected and the requests issued so far. An exception of
  the filter ends this pair only (\<open>except ... continue\<close>).
\<close>

definition search_pairs_of :: "preferences \<Rightarrow> (string \<times> string) list" where
  "search_pairs_of prefs =
     concat (map (\<lambda>keyword. map (\<lambda>loc. (keyword, loc)) (take 2 (locations prefs)))
                 (take 3 (keywords_list prefs)))"

fun search_pairs ::
    "world \<Rightarrow> preferences \<Rightarrow> (string \<times> string) list \<Rightarrow> nat \<Rightarrow> job_row list list \<Rightarrow> nat \<Rightarrow>
     (job_row list list \<times> nat) option" where
  "search_pairs w prefs [] k all_jobs reqs = Some (all_jobs, reqs)"
| "search_pairs w prefs ((keyword, loc) # rest) k all_jobs reqs =
     (if ''linkedin'' \<in> set (sites_enabled prefs) then
        (case method_1_guest_api (w_upstream w k) keyword loc 10
                (search_time_filter prefs) (work_type prefs) of
           None \<Rightarrow> None
         | Some (linkedin_jobs_list, n) \<Rightarrow>
             if linkedin_jobs_list \<noteq> [] then
               (case filter_jobs_for_user (w_re_compile w)
                       (add_quality_scores (w_score_time w k) prefs 0 linkedin_jobs_list) prefs of
                  Inl err \<Rightarrow> search_pairs w prefs rest (Suc k) all_jobs (reqs + n)
                | Inr filtered_jobs \<Rightarrow>
                    search_pairs w prefs rest (Suc k) (all_jobs @ [filtered_jobs]) (reqs + n))
             else search_pairs w prefs rest (Suc k) all_jobs (reqs + n))
      else search_pairs w prefs rest (Suc k) all_jobs reqs)"

text \<open>The part of the cycle after the searches: combine, save, notify.\<close>

definition process_results ::
    "world \<Rightarrow> string \<Rightarrow> user \<Rightarrow> job_row list list \<Rightarrow> engine \<Rightarrow> engine" where
  "process_results w uid usr all_jobs e =
     (if all_jobs \<noteq> [] then
        (let combined_jobs = drop_duplicates (concat all_jobs)
         in case save_jobs_for_user uid combined_jobs e of
              (new_jobs, e1) \<Rightarrow>
                if length new_jobs > 0 then send_job_notifications (w_smtp_ok w) usr new_jobs e1
                else e1)
      else e)"

definition search_jobs_for_user :: "world \<Rightarrow> string \<Rightarrow> engine \<Rightarrow> (engine \<times> cycle_log) option" where
  "search_jobs_for_user w uid e =
     (case get_user_by_id uid e of
        None \<Rightarrow> Some (e, \<lparr>acquired = [], requests = 0\<rparr>)
      | Some usr \<Rightarrow>
          if \<not> u_is_active usr then Some (e, \<lparr>acquired = [], requests = 0\<rparr>)
          else
            (case get_user_preferences uid e of
               None \<Rightarrow> Some (e, \<lparr>acquired = [], requests = 0\<rparr>)
             | Some prefs \<Rightarrow>
                 (case check_rate_limit (w_gate_time w) (gateway e) of
                    (ok, g1) \<Rightarrow>
                      if \<not> ok then Some (e\<lparr>gateway := g1\<rparr>, \<lparr>acquired = [False], requests = 0\<rparr>)
                      else
                        (case search_pairs w prefs (search_pairs_of prefs) 0 [] 0 of
                           None \<Rightarrow> None
                         | Some (all_jobs, reqs) \<Rightarrow>
                             (let e2 = process_results w uid usr all_jobs (e\<lparr>gateway := g1\<rparr>)
                              in Some (e2\<lparr>last_search_times :=
                                            (last_search_times e2)(uid \<mapsto> w_end_time w)\<rparr>,
                                       \<lparr>acquired = [True], requests = reqs\<rparr>))))))"

section \<open>Scheduling: \<open>ContinuousSearchEngine.schedule_user_searches\<close>\<close>

text \<open>
  A job registered with the \<open>schedule\<close> library by
  \<open>schedule.every(frequency).minutes.do(self.search_jobs_for_user, user_id=user.id).tag(...)\<close>:
  the interval, the argument of the call, the tag, and the first run, which the library
  sets to the time of registration plus the interval. Python's \<open>hash\<close> is a parameter.
  \<open>hash(user.id) % frequency\<close> raises ZeroDivisionError when the frequency is 0.
\<close>

record scheduled_job =
  sj_interval_minutes :: int
  sj_user_id :: string
  sj_tag :: string
  sj_next_run :: time

definition py_mod :: "int \<Rightarrow> int \<Rightarrow> exn + int" where
  "py_mod a b = (if b = 0 then Inl ZeroDivisionError else Inr (a mod b))"

fun schedule_loop ::
    "(string \<Rightarrow> int) \<Rightarrow> time \<Rightarrow> engine \<Rightarrow> user list \<Rightarrow> scheduled_job list \<Rightarrow>
     exn + scheduled_job list" where
  "schedule_loop hash now e [] registry = Inr registry"
| "schedule_loop hash now e (usr # rest) registry =
     (case get_user_preferences (u_id usr) e of
        None \<Rightarrow> schedule_loop hash now e rest registry
      | Some prefs \<Rightarrow>
          (let frequency = search_frequency_minutes prefs
           in case py_mod (hash (u_id usr)) frequency of
                Inl err \<Rightarrow> Inl err
              | Inr delay_minutes \<Rightarrow>
                  schedule_loop hash now e rest
                    (registry @ [\<lparr>sj_interval_minutes = frequency, sj_user_id = u_id usr,
                                  sj_tag = ''user_'' @ u_id usr,
                                  sj_next_run = now + frequency * minute\<rparr>])))"

definition schedule_user_searches ::
    "(string \<Rightarrow> int) \<Rightarrow> time \<Rightarrow> engine \<Rightarrow> exn + scheduled_job list" where
  "schedule_user_searches hash now e =
     (let active_users = filter u_is_active (users (db e))
      in schedule_loop hash now e active_users [])"

text \<open>The first run the specification asks for: the interval plus the stagger offset.\<close>

definition staggered_first_run :: "(string \<Rightarrow> int) \<Rightarrow> time \<Rightarrow> string \<Rightarrow> int \<Rightarrow> time" where
  "staggered_first_run hash now uid frequency =
     now + frequency * minute + (hash uid mod frequency) * minute"

section \<open>Predicates on the record store\<close>

text \<open>
  A user is linked to a URL when
  \<open>get_user_job_status\<close> finds a row. A URL is stuck when a stored job has it as
  \<open>external_id\<close> with the site \<open>'linkedin'\<close> but no stored job has it as \<open>job_url\<close>:
  \<open>save_job_to_db\<close> then neither inserts nor finds a job. The uuids are fresh when
  every stored id is below the next draw, as it is for ids drawn from the engine's supply.
\<close>

definition linked :: "string \<Rightarrow> string \<Rightarrow> engine \<Rightarrow> bool" where
  "linked uid url e = (get_user_job_status uid url e \<noteq> None)"

definition stuck :: "string \<Rightarrow> engine \<Rightarrow> bool" where
  "stuck url e =
     (list_ex (\<lambda>j. d_external_id (j_data j) = url \<and> d_site_source (j_data j) = ''linkedin'')
              (jobs (db e))
      \<and> \<not> list_ex (\<lambda>j. d_job_url (j_data j) = url) (jobs (db e)))"

definition settled :: "string \<Rightarrow> string \<Rightarrow> engine \<Rightarrow> bool" where
  "settled uid url e = (linked uid url e \<or> stuck url e)"

definition fresh_uuids :: "engine \<Rightarrow> bool" where
  "fresh_uuids e =
     (list_all (\<lambda>j. j_id j < uuid_next e) (jobs (db e))
      \<and> list_all (\<lambda>uj. uj_id uj < uuid_next e) (user_jobs (db e)))"

text \<open>
  A row is no better than another when both have the same URL, title and salary and its
  score is not higher; a frame is covered by another when each of its rows is no
  better than a row of the other.
\<close>

definition no_better :: "job_row \<Rightarrow> job_row \<Rightarrow> bool" where
  "no_better x y =
     (job_url x = job_url y \<and> title x = title y \<and> salary_min x = salary_min y
      \<and> quality_score x \<le> quality_score y)"

definition covered :: "job_row list \<Rightarrow> job_row list \<Rightarrow> bool" where
  "covered xs ys = list_all (\<lambda>x. list_ex (no_better x) ys) xs"

section \<open>Example data\<close>

text \<open>Inputs at which the theorems below are run.\<close>

definition demo_prefs :: preferences where
  "demo_prefs =
     \<lparr>user_id = ''u1'', keywords_list = [''python'', ''developer''], exclude_keywords = [],
      locations = [''Remote''], min_salary = 80000, max_salary = 200000,
      sites_enabled = [''linkedin''], search_frequency_minutes = 15,
      linkedin_quality_threshold = 65, max_hours_old = 24, time_filter = ''r3600'',
      work_type = ''2'', ultra_recent_mode = False, first_applicant_mode = False\<rparr>"

definition demo_job :: "string \<Rightarrow> string \<Rightarrow> int \<Rightarrow> job_row" where
  "demo_job t url score =
     \<lparr>title = t, company = ''Acme'', location = ''Remote'', job_url = Some url,
      posted_date = None, salary_min = None, quality_score = score\<rparr>"

text \<open>A regular-expression library that knows literal patterns only.\<close>

definition demo_re :: regex_lib where
  "demo_re pat = (if CHR ''('' \<in> set pat then None
                  else Some (\<lambda>s. str_in (lower pat) (lower s)))"

definition demo_user :: user where
  "demo_user = \<lparr>u_id = ''u1'', u_email = ''u1@example.org'', u_name = ''User One'',
                 u_is_active = True\<rparr>"

definition demo_engine :: engine where
  "demo_engine =
     \<lparr>db = \<lparr>users = [demo_user], user_preferences = [demo_prefs], jobs = [], user_jobs = []\<rparr>,
      gateway = \<lparr>linkedin_requests_per_minute = 10, linkedin_last_requests = []\<rparr>,
      uuid_next = 0, last_search_times = Map.empty, email_configured = True, outbox = []\<rparr>"

text \<open>
  A source that answers every request with status 429, and a source that answers the
  first request of a call with status 429, the second with a page of three cards, of
  which the second does not parse, and every later one with an empty page.
\<close>

definition always_429 :: source where
  "always_429 n rq = Status429"

definition demo_source :: source where
  "demo_source n rq =
     (if n = 0 then Status429
      else if n = 1 then
        Status200 [Some (demo_job ''Python Developer'' ''u/1'' 0), None,
                   Some (demo_job ''Clerk'' ''u/2'' 0)]
      else Status200 [])"

definition demo_world :: world where
  "demo_world =
     \<lparr>w_gate_time = 0, w_score_time = (\<lambda>k j. 0), w_end_time = 0, w_re_compile = demo_re,
      w_upstream = (\<lambda>k. demo_source), w_smtp_ok = True\<rparr>"

text \<open>
  The engine after one cycle of the example user on the example world, by whether the
  SMTP server accepted the digest.
\<close>

definition demo_engine_after :: "bool \<Rightarrow> engine" where
  "demo_engine_after smtp_ok =
     demo_engine
       \<lparr>db := (db demo_engine)\<lparr>
          jobs := [\<lparr>j_id = 0, j_data = job_data_of ''u/1'' (demo_job ''Python Developer'' ''u/1'' 90)\<rparr>,
                   \<lparr>j_id = 2, j_data = job_data_of ''u/2'' (demo_job ''Clerk'' ''u/2'' 70)\<rparr>],
          user_jobs :=
            [\<lparr>uj_id = 1, uj_user_id = ''u1'', uj_job_id = 0, uj_match_score = 90,
              uj_is_notified = False, uj_is_applied = False, uj_is_saved = False,
              uj_is_hidden = False\<rparr>,
             \<lparr>uj_id = 3, uj_user_id = ''u1'', uj_job_id = 2, uj_match_score = 70,
              uj_is_notified = False, uj_is_applied = False, uj_is_saved = False,
              uj_is_hidden = False\<rparr>]\<rparr>,
        gateway := \<lparr>linkedin_requests_per_minute = 10, linkedin_last_requests = [0]\<rparr>,
        uuid_next := 4,
        last_search_times := [''u1'' \<mapsto> 0],
        outbox := (if smtp_ok
                   then [(''u1@example.org'',
                          [demo_job ''Python Developer'' ''u/1'' 90, demo_job ''Clerk'' ''u/2'' 70])]
                   else [])\<rparr>"

definition demo_hash :: "string \<Rightarrow> int" where
  "demo_hash s = 7"

section \<open>Properties of the rate gateway\<close>

lemma check_rate_limit_limit:
  "linkedin_requests_per_minute (snd (check_rate_limit now g)) = linkedin_requests_per_minute g"
  by (simp add: check_rate_limit_def Let_def)

lemma filter_window_held:
  assumes "now < t0 + minute"
  shows "filter (\<lambda>r. t0 \<le> r) (filter (\<lambda>r. now - r < minute) xs) = filter (\<lambda>r. t0 \<le> r) xs"
proof -
  have "\<And>r. t0 \<le> r \<Longrightarrow> now - r < minute" using assms by simp
  then show ?thesis by (induction xs) auto
qed

lemma held_filter_window:
  assumes "now < t0 + minute"
  shows "held t0 (g\<lparr>linkedin_last_requests :=
            filter (\<lambda>r. now - r < minute) (linkedin_last_requests g)\<rparr>) = held t0 g"
  unfolding held_def using filter_window_held [OF assms, of "linkedin_last_requests g"]
  by (simp del: filter_filter)

lemma held_append:
  "held t0 (g\<lparr>linkedin_last_requests := xs @ [t]\<rparr>) =
     held t0 (g\<lparr>linkedin_last_requests := xs\<rparr>) + (if t0 \<le> t then 1 else 0)"
  by (simp add: held_def)

lemma held_le_recent:
  assumes "now < t0 + minute"
  shows "held t0 g \<le> length (filter (\<lambda>r. now - r < minute) (linkedin_last_requests g))"
proof -
  have "held t0 g = length (filter (\<lambda>r. t0 \<le> r)
          (filter (\<lambda>r. now - r < minute) (linkedin_last_requests g)))"
    unfolding held_def using filter_window_held [OF assms, of "linkedin_last_requests g"]
    by (simp del: filter_filter)
  also have "\<dots> \<le> length (filter (\<lambda>r. now - r < minute) (linkedin_last_requests g))"
    by (rule length_filter_le)
  finally show ?thesis .
qed

lemma held_after_check:
  assumes "t0 \<le> now" "now < t0 + minute"
  shows "held t0 (snd (check_rate_limit now g)) =
         held t0 g + (if fst (check_rate_limit now g) then 1 else 0)"
  using assms held_filter_window [of now t0 g]
  by (simp add: check_rate_limit_def Let_def held_append)

lemma check_true_room:
  assumes "now < t0 + minute" "fst (check_rate_limit now g)"
  shows "held t0 g < linkedin_requests_per_minute g"
proof -
  from assms(2) have "length (filter (\<lambda>r. now - r < minute) (linkedin_last_requests g))
      < linkedin_requests_per_minute g"
    by (simp add: check_rate_limit_def Let_def split: if_splits)
  with held_le_recent [OF assms(1), of g] show ?thesis by simp
qed

lemma acquire_all_bound:
  assumes "\<forall>t \<in> set ts. t0 \<le> t \<and> t < t0 + minute"
  shows "count_true (fst (acquire_all g ts)) + held t0 g
           \<le> max (held t0 g) (linkedin_requests_per_minute g)"
  using assms
proof (induction ts arbitrary: g)
  case Nil
  then show ?case by (simp add: count_true_def)
next
  case (Cons t ts)
  obtain b g1 where c: "check_rate_limit t g = (b, g1)" by (cases "check_rate_limit t g")
  obtain bs g2 where a: "acquire_all g1 ts = (bs, g2)" by (cases "acquire_all g1 ts")
  from Cons.prems have t: "t0 \<le> t" "t < t0 + minute" by simp_all
  from Cons.prems have "\<forall>t \<in> set ts. t0 \<le> t \<and> t < t0 + minute" by simp
  from Cons.IH [OF this, of g1] a
  have ih: "count_true bs + held t0 g1 \<le> max (held t0 g1) (linkedin_requests_per_minute g1)"
    by simp
  have lim: "linkedin_requests_per_minute g1 = linkedin_requests_per_minute g"
    using check_rate_limit_limit [of t g] c by simp
  have h1: "held t0 g1 = held t0 g + (if b then 1 else 0)"
    using held_after_check [OF t, of g] c by simp
  show ?case
  proof (cases b)
    case True
    then have "held t0 g < linkedin_requests_per_minute g"
      using check_true_room [OF t(2), of g] c by simp
    with ih h1 lim True c a show ?thesis by (simp add: count_true_def)
  next
    case False
    with ih h1 lim c a show ?thesis by (simp add: count_true_def)
  qed
qed

text \<open>
  C3. A call of the rate gateway answers true exactly when fewer recorded calls than the
  ceiling lie less than one minute before the call; a true answer keeps those calls and
  records the time of this one, a false answer keeps those calls only. Hence, among
  calls that all fall into one window of 60 seconds, starting from any gateway state,
  at most as many as the ceiling are answered true: every call in excess is answered
  false.
\<close>

theorem rate_ceiling:
  "(fst (check_rate_limit now g) \<longleftrightarrow>
      length (filter (\<lambda>r. now - r < minute) (linkedin_last_requests g))
        < linkedin_requests_per_minute g)
   \<and> linkedin_last_requests (snd (check_rate_limit now g)) =
       filter (\<lambda>r. now - r < minute) (linkedin_last_requests g)
         @ (if fst (check_rate_limit now g) then [now] else [])
   \<and> ((\<forall>t \<in> set ts. t0 \<le> t \<and> t < t0 + minute) \<longrightarrow>
        count_true (fst (acquire_all g ts)) \<le> linkedin_requests_per_minute g)"
proof (intro conjI impI)
  show "fst (check_rate_limit now g) \<longleftrightarrow>
     length (filter (\<lambda>r. now - r < minute) (linkedin_last_requests g))
       < linkedin_requests_per_minute g"
    by (auto simp add: check_rate_limit_def Let_def)
  show "linkedin_last_requests (snd (check_rate_limit now g)) =
     filter (\<lambda>r. now - r < minute) (linkedin_last_requests g)
       @ (if fst (check_rate_limit now g) then [now] else [])"
    by (simp add: check_rate_limit_def Let_def)
  assume "\<forall>t \<in> set ts. t0 \<le> t \<and> t < t0 + minute"
  from acquire_all_bound [OF this, of g]
  show "count_true (fst (acquire_all g ts)) \<le> linkedin_requests_per_minute g"
    by (simp add: max_def split: if_splits)
qed

text \<open>
  Three calls within one second at a gateway with ceiling 2 that holds one call made
  two minutes earlier: the old call is pruned, two calls are admitted, the third is not.
\<close>

theorem rate_ceiling_witness:
  "fst (acquire_all \<lparr>linkedin_requests_per_minute = 2,
                        linkedin_last_requests = [- 120000000]\<rparr> [0, 400000, 900000])
       = [True, True, False]
   \<and> count_true (fst (acquire_all \<lparr>linkedin_requests_per_minute = 2,
                        linkedin_last_requests = [- 120000000]\<rparr> [0, 400000, 900000])) \<le> 2"
proof -
  have h: "\<forall>t \<in> set [0, 400000, 900000]. (0::int) \<le> t \<and> t < 0 + minute"
    by (simp add: minute_def)
  have r: "fst (acquire_all \<lparr>linkedin_requests_per_minute = 2,
                        linkedin_last_requests = [- 120000000]\<rparr> [0, 400000, 900000])
       = [True, True, False]"
    by (simp add: check_rate_limit_def minute_def Let_def)
  from rate_ceiling [of 0 "\<lparr>linkedin_requests_per_minute = 2,
      linkedin_last_requests = [- 120000000]\<rparr>" "[0, 400000, 900000]" 0] h
  have "count_true (fst (acquire_all \<lparr>linkedin_requests_per_minute = 2,
      linkedin_last_requests = [- 120000000]\<rparr> [0, 400000, 900000])) \<le> 2"
    by simp
  with r show ?thesis by blast
qed

section \<open>Properties of the score\<close>

lemma count_keyword_matches_eq:
  "count_keyword_matches ks t n = n + length (filter (\<lambda>k. str_in (lower k) t) ks)"
  by (induction ks arbitrary: n) simp_all

lemma location_loop_eq:
  "location_loop ls loc s = s + (if list_ex (\<lambda>l. str_in (lower l) loc) ls then 20 else 0)"
  by (induction ls) simp_all

lemma exclude_loop_eq:
  "exclude_loop ks t s = s - 20 * int (length (filter (\<lambda>k. str_in (lower k) t) ks))"
  by (induction ks arbitrary: s) simp_all

lemma freshness_eq: "freshness now pd s = s + freshness now pd 0"
  by (simp add: freshness_def Let_def split: option.splits)

lemma freshness_range: "0 \<le> freshness now pd 0 \<and> freshness now pd 0 \<le> 10"
  by (simp add: freshness_def Let_def split: option.splits)

lemma freshness_values: "freshness now pd 0 \<in> {0, 5, 10}"
  by (simp add: freshness_def Let_def split: option.splits)

lemma freshness_antimono:
  assumes "now1 \<le> now2"
  shows "freshness now2 pd 0 \<le> freshness now1 pd 0"
proof (cases pd)
  case None
  then show ?thesis by (simp add: freshness_def)
next
  case (Some d)
  have "(now1 - d) div day \<le> (now2 - d) div day"
    using assms by (intro zdiv_mono1) (simp_all add: day_def)
  with Some show ?thesis by (simp add: freshness_def Let_def timedelta_days_def)
qed

lemma keyword_part:
  "(if 0 < count_keyword_matches ks t 0
    then (50::int) + min 30 (int (count_keyword_matches ks t 0) * 10) else 50)
   = 50 + min 30 (10 * int (length (filter (\<lambda>k. str_in (lower k) t) ks)))"
  by (simp add: count_keyword_matches_eq mult.commute)

lemma if_add_10: "(if b then (x::int) + 10 else x) = x + (if b then 10 else 0)"
  by simp

lemma score_decomposed:
  "calculate_quality_score now j p = min 100 (max 0 (static_score j p + recency_bonus now j))"
proof -
  define K where "K = keyword_bonus j p"
  define L where "L = location_bonus j p"
  define E where "E = employer_bonus j"
  define F where "F = recency_bonus now j"
  define H where "H = int (exclude_hits j p)"
  define s1 where "s1 =
    (if 0 < count_keyword_matches (keywords_list p) (lower (title j)) 0
     then (50::int) + min 30 (int (count_keyword_matches (keywords_list p) (lower (title j)) 0) * 10)
     else 50)"
  define s2 where "s2 = location_loop (locations p) (lower (location j)) s1"
  define s3 where "s3 =
    (if list_ex (\<lambda>comp. str_in comp (lower (company j))) reputable_companies
     then s2 + 10 else s2)"
  define s4 where "s4 = freshness now (posted_date j) s3"
  define s5 where "s5 = exclude_loop (exclude_keywords p) (lower (title j)) s4"
  have c: "calculate_quality_score now j p = min 100 (max 0 s5)"
    unfolding calculate_quality_score_def Let_def s5_def s4_def s3_def s2_def s1_def ..
  have a1: "s1 = 50 + K"
    unfolding s1_def K_def keyword_bonus_def by (rule keyword_part)
  have a2: "s2 = s1 + L"
    unfolding s2_def L_def location_bonus_def by (rule location_loop_eq)
  have a3: "s3 = s2 + E"
    unfolding s3_def E_def employer_bonus_def by (rule if_add_10)
  have a4: "s4 = s3 + F"
    unfolding s4_def F_def recency_bonus_def by (rule freshness_eq)
  have a5: "s5 = s4 - 20 * H"
    unfolding s5_def H_def exclude_hits_def by (rule exclude_loop_eq)
  have st: "static_score j p = 50 + K + L + E - 20 * H"
    unfolding static_score_def K_def L_def E_def H_def ..
  have "s5 = static_score j p + F"
    unfolding a5 a4 a3 a2 a1 st by (simp only: algebra_simps)
  then show ?thesis unfolding c F_def by (rule arg_cong)
qed

lemma score_antimono:
  assumes "now1 \<le> now2"
  shows "calculate_quality_score now2 j p \<le> calculate_quality_score now1 j p"
  using freshness_antimono [OF assms, of "posted_date j"]
  by (simp add: score_decomposed recency_bonus_def)

text \<open>
  C5, as the source has it. The score is 50, plus 10 for each preferred keyword found in
  the title up to 30, plus 20 if a preferred location is found in the posting's
  location, plus 10 if the employer's name contains a name of the list, plus 10 if the
  posting date is at most one whole day back (5 if at most three), the days being the
  elapsed time divided by a day and rounded down, minus 20 if an exclude keyword is
  found in the title, clamped to 0..100. This is stated for a title that holds at most
  one of the exclude keywords; what the source does with a title that holds several is
  left out.
\<close>

theorem quality_score_formula:
  assumes "exclude_hits j p \<le> 1"
  shows "calculate_quality_score now j p =
     min 100 (max 0
       (50 + keyword_bonus j p + location_bonus j p + employer_bonus j + recency_bonus now j
           - (if exclude_hits j p > 0 then 20 else 0)))
   \<and> recency_bonus now j =
       (case posted_date j of
          None \<Rightarrow> 0
        | Some d \<Rightarrow> if (now - d) div day \<le> 1 then 10
                    else if (now - d) div day \<le> 3 then 5 else 0)"
proof -
  from assms have "exclude_hits j p = 0 \<or> exclude_hits j p = 1" by arith
  then have "20 * int (exclude_hits j p) = (if exclude_hits j p > 0 then 20 else 0)"
    by auto
  then have "static_score j p + recency_bonus now j =
      50 + keyword_bonus j p + location_bonus j p + employer_bonus j + recency_bonus now j
        - (if exclude_hits j p > 0 then 20 else 0)"
    by (simp add: static_score_def)
  moreover have "recency_bonus now j =
       (case posted_date j of
          None \<Rightarrow> 0
        | Some d \<Rightarrow> if (now - d) div day \<le> 1 then 10
                    else if (now - d) div day \<le> 3 then 5 else 0)"
    by (simp add: recency_bonus_def freshness_def Let_def timedelta_days_def
        split: option.splits)
  ultimately show ?thesis using score_decomposed [of now j p] by simp
qed

text \<open>
  A posting titled \<open>Sales Engineer\<close>, 47 hours old, scored for a user who excludes
  \<open>sales\<close>: one exclude keyword is found, the whole days elapsed are 1, and the score
  is 50 + 10 - 20 = 40.
\<close>

theorem quality_score_formula_witness:
  "calculate_quality_score (47 * 60 * minute)
      \<lparr>title = ''Sales Engineer'', company = ''Acme'', location = ''Toronto'',
       job_url = Some ''https://example.org/jobs/view/3'', posted_date = Some 0,
       salary_min = None, quality_score = 0\<rparr>
      \<lparr>user_id = ''u1'', keywords_list = [''python''], exclude_keywords = [''sales''],
       locations = [''Remote''], min_salary = 80000, max_salary = 200000,
       sites_enabled = [''linkedin''], search_frequency_minutes = 15,
       linkedin_quality_threshold = 65, max_hours_old = 24, time_filter = ''r3600'',
       work_type = ''2'', ultra_recent_mode = False, first_applicant_mode = False\<rparr> = 40"
proof -
  have h: "exclude_hits
      \<lparr>title = ''Sales Engineer'', company = ''Acme'', location = ''Toronto'',
       job_url = Some ''https://example.org/jobs/view/3'', posted_date = Some 0,
       salary_min = None, quality_score = 0\<rparr>
      \<lparr>user_id = ''u1'', keywords_list = [''python''], exclude_keywords = [''sales''],
       locations = [''Remote''], min_salary = 80000, max_salary = 200000,
       sites_enabled = [''linkedin''], search_frequency_minutes = 15,
       linkedin_quality_threshold = 65, max_hours_old = 24, time_filter = ''r3600'',
       work_type = ''2'', ultra_recent_mode = False, first_applicant_mode = False\<rparr> = 1"
    by code_simp
  have k: "keyword_bonus
      \<lparr>title = ''Sales Engineer'', company = ''Acme'', location = ''Toronto'',
       job_url = Some ''https://example.org/jobs/view/3'', posted_date = Some 0,
       salary_min = None, quality_score = 0\<rparr>
      \<lparr>user_id = ''u1'', keywords_list = [''python''], exclude_keywords = [''sales''],
       locations = [''Remote''], min_salary = 80000, max_salary = 200000,
       sites_enabled = [''linkedin''], search_frequency_minutes = 15,
       linkedin_quality_threshold = 65, max_hours_old = 24, time_filter = ''r3600'',
       work_type = ''2'', ultra_recent_mode = False, first_applicant_mode = False\<rparr> = 0"
    by code_simp
  have l: "location_bonus
      \<lparr>title = ''Sales Engineer'', company = ''Acme'', location = ''Toronto'',
       job_url = Some ''https://example.org/jobs/view/3'', posted_date = Some 0,
       salary_min = None, quality_score = 0\<rparr>
      \<lparr>user_id = ''u1'', keywords_list = [''python''], exclude_keywords = [''sales''],
       locations = [''Remote''], min_salary = 80000, max_salary = 200000,
       sites_enabled = [''linkedin''], search_frequency_minutes = 15,
       linkedin_quality_threshold = 65, max_hours_old = 24, time_filter = ''r3600'',
       work_type = ''2'', ultra_recent_mode = False, first_applicant_mode = False\<rparr> = 0"
    by code_simp
  have e: "employer_bonus
      \<lparr>title = ''Sales Engineer'', company = ''Acme'', location = ''Toronto'',
       job_url = Some ''https://example.org/jobs/view/3'', posted_date = Some 0,
       salary_min = None, quality_score = 0\<rparr> = 0"
    by code_simp
  have h1: "exclude_hits
      \<lparr>title = ''Sales Engineer'', company = ''Acme'', location = ''Toronto'',
       job_url = Some ''https://example.org/jobs/view/3'', posted_date = Some 0,
       salary_min = None, quality_score = 0\<rparr>
      \<lparr>user_id = ''u1'', keywords_list = [''python''], exclude_keywords = [''sales''],
       locations = [''Remote''], min_salary = 80000, max_salary = 200000,
       sites_enabled = [''linkedin''], search_frequency_minutes = 15,
       linkedin_quality_threshold = 65, max_hours_old = 24, time_filter = ''r3600'',
       work_type = ''2'', ultra_recent_mode = False, first_applicant_mode = False\<rparr> \<le> 1"
    by (simp only: h)
  show ?thesis
    using quality_score_formula [OF h1, of "47 * 60 * minute"]
    by (simp add: h k l e minute_def day_def)
qed

text \<open>
  A posting 47 hours old was not posted within 1 day, it was posted within 3 days: the
  specification's formula gives it the half bonus and 55, the source counts one whole
  day, gives it the full bonus and 60. No exclude keyword is found in its title.
\<close>

theorem quality_score_counterexample:
  "calculate_quality_score (47 * 60 * minute)
      \<lparr>title = ''Clerk'', company = ''Acme'', location = ''Toronto'',
       job_url = Some ''https://example.org/jobs/view/4'', posted_date = Some 0,
       salary_min = None, quality_score = 0\<rparr>
      \<lparr>user_id = ''u1'', keywords_list = [''python''], exclude_keywords = [''sales''],
       locations = [''Remote''], min_salary = 80000, max_salary = 200000,
       sites_enabled = [''linkedin''], search_frequency_minutes = 15,
       linkedin_quality_threshold = 65, max_hours_old = 24, time_filter = ''r3600'',
       work_type = ''2'', ultra_recent_mode = False, first_applicant_mode = False\<rparr> = 60
   \<and> spec_score (47 * 60 * minute)
      \<lparr>title = ''Clerk'', company = ''Acme'', location = ''Toronto'',
       job_url = Some ''https://example.org/jobs/view/4'', posted_date = Some 0,
       salary_min = None, quality_score = 0\<rparr>
      \<lparr>user_id = ''u1'', keywords_list = [''python''], exclude_keywords = [''sales''],
       locations = [''Remote''], min_salary = 80000, max_salary = 200000,
       sites_enabled = [''linkedin''], search_frequency_minutes = 15,
       linkedin_quality_threshold = 65, max_hours_old = 24, time_filter = ''r3600'',
       work_type = ''2'', ultra_recent_mode = False, first_applicant_mode = False\<rparr> = 55"
  by code_simp

text \<open>
  The exclude loop of \<open>calculate_quality_score\<close> has no \<open>break\<close>, where the location loop
  above it and the exclude loop of \<open>calculate_linkedin_quality_score\<close> (\<open>main.py\<close>) stop at
  the first match. With two exclude keywords found in the title the source subtracts 40
  and gives 10, where a single penalty of 20 gives 30.
\<close>

lemma exclude_penalty_repeated:
  "calculate_quality_score 0
      \<lparr>title = ''Sales Manager'', company = ''Acme'', location = ''Toronto'',
       job_url = Some ''https://example.org/jobs/view/1'', posted_date = None,
       salary_min = None, quality_score = 0\<rparr>
      \<lparr>user_id = ''u1'', keywords_list = [''python''], exclude_keywords = [''sales'', ''manager''],
       locations = [''Remote''], min_salary = 80000, max_salary = 200000,
       sites_enabled = [''linkedin''], search_frequency_minutes = 15,
       linkedin_quality_threshold = 65, max_hours_old = 24, time_filter = ''r3600'',
       work_type = ''2'', ultra_recent_mode = False, first_applicant_mode = False\<rparr> = 10
   \<and> spec_score 0
      \<lparr>title = ''Sales Manager'', company = ''Acme'', location = ''Toronto'',
       job_url = Some ''https://example.org/jobs/view/1'', posted_date = None,
       salary_min = None, quality_score = 0\<rparr>
      \<lparr>user_id = ''u1'', keywords_list = [''python''], exclude_keywords = [''sales'', ''manager''],
       locations = [''Remote''], min_salary = 80000, max_salary = 200000,
       sites_enabled = [''linkedin''], search_frequency_minutes = 15,
       linkedin_quality_threshold = 65, max_hours_old = 24, time_filter = ''r3600'',
       work_type = ''2'', ultra_recent_mode = False, first_applicant_mode = False\<rparr> = 30"
  by code_simp

text \<open>
  C6, as the source has it. \<open>calculate_quality_score(job_row, preferences)\<close> has no time
  argument and reads the clock; with the reading as \<open>now\<close>, the score is the clamped sum
  of a part that depends on the row and the preferences only and of the recency bonus,
  which is 0, 5 or 10 and so lies between 0 and 10, so two readings change the score by
  no more than they change the recency bonus.
\<close>

theorem quality_score_clock:
  "calculate_quality_score now j p = min 100 (max 0 (static_score j p + recency_bonus now j))
   \<and> 0 \<le> recency_bonus now j \<and> recency_bonus now j \<le> 10
   \<and> recency_bonus now j \<in> {0, 5, 10}
   \<and> \<bar>calculate_quality_score now1 j p - calculate_quality_score now2 j p\<bar>
       \<le> \<bar>recency_bonus now1 j - recency_bonus now2 j\<bar>"
  using freshness_range [of now "posted_date j"] freshness_values [of now "posted_date j"]
  by (simp add: score_decomposed recency_bonus_def)

text \<open>
  The same row and the same preferences, scored at two readings of the clock five days
  apart, get 60 and 50: the result is not a function of the arguments of the source's
  function.
\<close>

theorem quality_score_clock_counterexample:
  "calculate_quality_score 0
      \<lparr>title = ''Clerk'', company = ''Acme'', location = ''Toronto'',
       job_url = Some ''https://example.org/jobs/view/2'', posted_date = Some 0,
       salary_min = None, quality_score = 0\<rparr>
      \<lparr>user_id = ''u1'', keywords_list = [''python''], exclude_keywords = [],
       locations = [''Remote''], min_salary = 80000, max_salary = 200000,
       sites_enabled = [''linkedin''], search_frequency_minutes = 15,
       linkedin_quality_threshold = 65, max_hours_old = 24, time_filter = ''r3600'',
       work_type = ''2'', ultra_recent_mode = False, first_applicant_mode = False\<rparr> = 60
   \<and> calculate_quality_score (5 * day)
      \<lparr>title = ''Clerk'', company = ''Acme'', location = ''Toronto'',
       job_url = Some ''https://example.org/jobs/view/2'', posted_date = Some 0,
       salary_min = None, quality_score = 0\<rparr>
      \<lparr>user_id = ''u1'', keywords_list = [''python''], exclude_keywords = [],
       locations = [''Remote''], min_salary = 80000, max_salary = 200000,
       sites_enabled = [''linkedin''], search_frequency_minutes = 15,
       linkedin_quality_threshold = 65, max_hours_old = 24, time_filter = ''r3600'',
       work_type = ''2'', ultra_recent_mode = False, first_applicant_mode = False\<rparr> = 50"
  by code_simp

section \<open>Properties of the filter\<close>

lemma subseq_filter_weaker:
  assumes "\<And>x. P x \<Longrightarrow> Q x"
  shows "subseq (filter P xs) (filter Q xs)"
  using assms by (induction xs) auto

lemma threshold_filter_subseq:
  assumes "lo \<le> (hi::int)"
  shows "subseq (filter (\<lambda>j. hi \<le> quality_score j) xs) (filter (\<lambda>j. lo \<le> quality_score j) xs)"
  using assms by (intro subseq_filter_weaker) simp

text \<open>
  The result of the filter only depends on the threshold through its first step; the
  other steps keep the order of two frames of which one is a part of the other.
\<close>

lemma filter_jobs_threshold:
  assumes "lo \<le> hi"
  shows "(case (filter_jobs_for_user re jobs_df (p\<lparr>linkedin_quality_threshold := hi\<rparr>),
               filter_jobs_for_user re jobs_df (p\<lparr>linkedin_quality_threshold := lo\<rparr>)) of
            (Inr kept_hi, Inr kept_lo) \<Rightarrow> subseq kept_hi kept_lo
          | (Inl e_hi, Inl e_lo) \<Rightarrow> e_hi = e_lo
          | _ \<Rightarrow> False)"
proof -
  let ?sal = "\<lambda>j. case salary_min j of None \<Rightarrow> True | Some s \<Rightarrow> min_salary p \<le> s"
  have t: "subseq (filter (\<lambda>j. hi \<le> quality_score j) jobs_df)
                  (filter (\<lambda>j. lo \<le> quality_score j) jobs_df)"
    by (rule threshold_filter_subseq [OF assms])
  have s: "subseq (filter ?sal (filter (\<lambda>j. hi \<le> quality_score j) jobs_df))
                  (filter ?sal (filter (\<lambda>j. lo \<le> quality_score j) jobs_df))"
    using t by (rule subseq_filter)
  have ts: "subseq (filter Q (filter (\<lambda>j. hi \<le> quality_score j) jobs_df))
                   (filter Q (filter (\<lambda>j. lo \<le> quality_score j) jobs_df))" for Q
    using t by (rule subseq_filter)
  have ss: "subseq (filter Q (filter ?sal (filter (\<lambda>j. hi \<le> quality_score j) jobs_df)))
                   (filter Q (filter ?sal (filter (\<lambda>j. lo \<le> quality_score j) jobs_df)))" for Q
    using s by (rule subseq_filter)
  show ?thesis
  proof (cases "jobs_df = []")
    case True
    then show ?thesis by (simp add: filter_jobs_for_user_def)
  next
    case False
    show ?thesis
    proof (cases "re (join ''|'' (exclude_keywords p))")
      case None
      with False t s show ?thesis
        by (simp add: filter_jobs_for_user_def Let_def del: filter_filter cong: option.case_cong)
    next
      case (Some search)
      with False t s ts [of "\<lambda>j. \<not> search (title j)"] ss [of "\<lambda>j. \<not> search (title j)"]
      show ?thesis
        by (simp add: filter_jobs_for_user_def Let_def del: filter_filter cong: option.case_cong)
    qed
  qed
qed

text \<open>
  C8. For a fixed frame and fixed other criteria, raising the quality threshold never
  lets more postings through: either the filter raises the same exception at both
  thresholds (the exclude pattern does not compile), or the rows kept at the higher
  threshold are, in order, among the rows kept at the lower one, so they are not more.
\<close>

theorem filter_monotone:
  assumes "lo \<le> hi"
  shows "(case (filter_jobs_for_user re jobs_df (p\<lparr>linkedin_quality_threshold := hi\<rparr>),
               filter_jobs_for_user re jobs_df (p\<lparr>linkedin_quality_threshold := lo\<rparr>)) of
            (Inr kept_hi, Inr kept_lo) \<Rightarrow>
               subseq kept_hi kept_lo \<and> set kept_hi \<subseteq> set kept_lo
               \<and> length kept_hi \<le> length kept_lo
          | (Inl e_hi, Inl e_lo) \<Rightarrow> e_hi = e_lo
          | _ \<Rightarrow> False)"
  using filter_jobs_threshold [OF assms, of re jobs_df p]
  by (auto split: sum.splits dest: list_emb_length elim: list_emb_set)

text \<open>
  A frame of two rows with scores 70 and 90: the threshold 80 keeps the second row, the
  threshold 60 keeps both.
\<close>

theorem filter_monotone_witness:
  "filter_jobs_for_user demo_re [demo_job ''Clerk'' ''u/1'' 70, demo_job ''Cook'' ''u/2'' 90]
       (demo_prefs\<lparr>linkedin_quality_threshold := 80\<rparr>) = Inr [demo_job ''Cook'' ''u/2'' 90]
   \<and> filter_jobs_for_user demo_re [demo_job ''Clerk'' ''u/1'' 70, demo_job ''Cook'' ''u/2'' 90]
       (demo_prefs\<lparr>linkedin_quality_threshold := 60\<rparr>)
       = Inr [demo_job ''Clerk'' ''u/1'' 70, demo_job ''Cook'' ''u/2'' 90]
   \<and> subseq [demo_job ''Cook'' ''u/2'' 90] [demo_job ''Clerk'' ''u/1'' 70, demo_job ''Cook'' ''u/2'' 90]"
proof -
  have hi: "filter_jobs_for_user demo_re [demo_job ''Clerk'' ''u/1'' 70, demo_job ''Cook'' ''u/2'' 90]
       (demo_prefs\<lparr>linkedin_quality_threshold := 80\<rparr>) = Inr [demo_job ''Cook'' ''u/2'' 90]"
    by (simp add: filter_jobs_for_user_def demo_prefs_def demo_job_def Let_def)
  have lo: "filter_jobs_for_user demo_re [demo_job ''Clerk'' ''u/1'' 70, demo_job ''Cook'' ''u/2'' 90]
       (demo_prefs\<lparr>linkedin_quality_threshold := 60\<rparr>)
       = Inr [demo_job ''Clerk'' ''u/1'' 70, demo_job ''Cook'' ''u/2'' 90]"
    by (simp add: filter_jobs_for_user_def demo_prefs_def demo_job_def Let_def)
  have "(60::int) \<le> 80" by simp
  from filter_monotone [OF this, of demo_re
      "[demo_job ''Clerk'' ''u/1'' 70, demo_job ''Cook'' ''u/2'' 90]" demo_prefs]
  have "subseq [demo_job ''Cook'' ''u/2'' 90]
          [demo_job ''Clerk'' ''u/1'' 70, demo_job ''Cook'' ''u/2'' 90]"
    unfolding hi lo by simp
  with hi lo show ?thesis by blast
qed

section \<open>Properties of deduplication and persistence\<close>

lemma has_url_iff: "has_url job \<longleftrightarrow> url_of job \<noteq> []"
  by (simp add: has_url_def)

lemma save_one_no_url:
  assumes "\<not> has_url job"
  shows "save_one uid job st = st"
  using assms by (cases st) (simp add: save_one_def has_url_def)

lemma save_loop_skips: "save_loop uid (filter has_url rows) st = save_loop uid rows st"
  by (induction rows arbitrary: st) (simp_all add: save_one_no_url)

lemma save_one_new_has_url:
  assumes "list_all has_url (fst st)"
  shows "list_all has_url (fst (save_one uid job st))"
proof (cases "has_url job")
  case False
  with assms show ?thesis by (simp add: save_one_no_url)
next
  case True
  with assms show ?thesis
    by (cases st)
      (auto simp add: save_one_def Let_def create_user_job_relationship_def
        split: option.splits prod.splits if_splits)
qed

lemma save_loop_new_has_url:
  assumes "list_all has_url (fst st)"
  shows "list_all has_url (fst (save_loop uid rows st))"
  using assms by (induction rows arbitrary: st) (simp_all add: save_one_new_has_url)

text \<open>
  C10. A row whose URL is missing or empty leaves the store and the list of new jobs as
  they are, so the call does what it does on the frame without these rows: the other
  rows are processed as if the row were not there, and every row of the returned
  net-new frame has a URL.
\<close>

theorem rows_without_url_skipped:
  "(\<not> has_url job \<longrightarrow> save_one uid job (new_jobs, e) = (new_jobs, e))
   \<and> save_jobs_for_user uid jobs_df e = save_jobs_for_user uid (filter has_url jobs_df) e
   \<and> list_all has_url (fst (save_jobs_for_user uid jobs_df e))"
proof (intro conjI impI)
  assume "\<not> has_url job"
  then show "save_one uid job (new_jobs, e) = (new_jobs, e)" by (rule save_one_no_url)
next
  have "save_loop uid jobs_df ([], e) = save_loop uid (filter has_url jobs_df) ([], e)"
    by (simp add: save_loop_skips)
  then show "save_jobs_for_user uid jobs_df e = save_jobs_for_user uid (filter has_url jobs_df) e"
    by (simp add: save_jobs_for_user_def)
next
  show "list_all has_url (fst (save_jobs_for_user uid jobs_df e))"
    using save_loop_new_has_url [of "([], e)" uid jobs_df]
    by (simp add: save_jobs_for_user_def)
qed

text \<open>
  A frame of a row without URL and a row with one, saved into an empty store: the first
  row changes nothing, the second is the net-new frame.
\<close>

theorem rows_without_url_skipped_witness:
  "save_one ''u1'' ((demo_job ''Clerk'' [] 70)\<lparr>job_url := None\<rparr>) ([], demo_engine)
     = ([], demo_engine)
   \<and> fst (save_jobs_for_user ''u1''
        [(demo_job ''Clerk'' [] 70)\<lparr>job_url := None\<rparr>, demo_job ''Cook'' ''u/2'' 90] demo_engine)
     = [demo_job ''Cook'' ''u/2'' 90]
   \<and> map (\<lambda>j. d_job_url (j_data j)) (jobs (db (snd (save_jobs_for_user ''u1''
        [(demo_job ''Clerk'' [] 70)\<lparr>job_url := None\<rparr>, demo_job ''Cook'' ''u/2'' 90] demo_engine))))
     = [''u/2'']"
proof -
  have n: "\<not> has_url ((demo_job ''Clerk'' [] 70)\<lparr>job_url := None\<rparr>)"
    by (simp add: has_url_def url_of_def)
  have f: "filter has_url [(demo_job ''Clerk'' [] 70)\<lparr>job_url := None\<rparr>, demo_job ''Cook'' ''u/2'' 90]
      = [demo_job ''Cook'' ''u/2'' 90]"
    by (simp add: has_url_def url_of_def demo_job_def)
  have s: "save_jobs_for_user ''u1'' [demo_job ''Cook'' ''u/2'' 90] demo_engine
      = ([demo_job ''Cook'' ''u/2'' 90],
         demo_engine\<lparr>uuid_next := 2,
           db := (db demo_engine)\<lparr>jobs := [\<lparr>j_id = 0,
                     j_data = job_data_of ''u/2'' (demo_job ''Cook'' ''u/2'' 90)\<rparr>],
                   user_jobs := [\<lparr>uj_id = 1, uj_user_id = ''u1'', uj_job_id = 0,
                     uj_match_score = 90, uj_is_notified = False, uj_is_applied = False,
                     uj_is_saved = False, uj_is_hidden = False\<rparr>]\<rparr>\<rparr>)"
    by (simp add: save_jobs_for_user_def save_one_def save_job_to_db_def
        create_user_job_relationship_def get_user_job_status_def demo_engine_def demo_job_def
        url_of_def Let_def)
  from rows_without_url_skipped [of "(demo_job ''Clerk'' [] 70)\<lparr>job_url := None\<rparr>" "''u1''" "[]"
      demo_engine "[(demo_job ''Clerk'' [] 70)\<lparr>job_url := None\<rparr>, demo_job ''Cook'' ''u/2'' 90]"] n
  have "save_one ''u1'' ((demo_job ''Clerk'' [] 70)\<lparr>job_url := None\<rparr>) ([], demo_engine)
          = ([], demo_engine)"
    and "save_jobs_for_user ''u1''
          [(demo_job ''Clerk'' [] 70)\<lparr>job_url := None\<rparr>, demo_job ''Cook'' ''u/2'' 90] demo_engine
          = save_jobs_for_user ''u1'' [demo_job ''Cook'' ''u/2'' 90] demo_engine"
    unfolding f by blast+
  then show ?thesis unfolding s by (simp add: job_data_of_def)
qed

section \<open>The store under \<open>save_jobs_for_user\<close>\<close>

lemma linked_iff:
  "linked uid url e \<longleftrightarrow>
     (\<exists>uj \<in> set (user_jobs (db e)). uj_user_id uj = uid \<and>
        (\<exists>j \<in> set (jobs (db e)). j_id j = uj_job_id uj \<and> d_job_url (j_data j) = url))"
  by (auto simp add: linked_def get_user_job_status_def find_None_iff list_ex_iff)

lemma stuck_iff:
  "stuck url e \<longleftrightarrow>
     (\<exists>j \<in> set (jobs (db e)). d_external_id (j_data j) = url \<and>
                                d_site_source (j_data j) = ''linkedin'')
     \<and> (\<forall>j \<in> set (jobs (db e)). d_job_url (j_data j) \<noteq> url)"
  by (auto simp add: stuck_def list_ex_iff)

lemma fresh_iff:
  "fresh_uuids e \<longleftrightarrow>
     (\<forall>j \<in> set (jobs (db e)). j_id j < uuid_next e)
     \<and> (\<forall>uj \<in> set (user_jobs (db e)). uj_id uj < uuid_next e)"
  by (auto simp add: fresh_uuids_def list_all_iff)

lemma settled_db:
  assumes "db e' = db e"
  shows "settled uid url e' = settled uid url e"
  using assms by (simp add: settled_def linked_iff stuck_iff)

text \<open>The two outcomes of \<open>save_job_to_db\<close>.\<close>

lemma save_job_to_db_cases:
  assumes "save_job_to_db d e = (r, e1)"
  obtains
    (inserted) "r = Some (uuid_next e)"
      "jobs (db e1) = jobs (db e) @ [\<lparr>j_id = uuid_next e, j_data = d\<rparr>]"
      "user_jobs (db e1) = user_jobs (db e)" "uuid_next e1 = Suc (uuid_next e)"
      "\<forall>j \<in> set (jobs (db e)).
         \<not> (d_external_id (j_data j) = d_external_id d \<and> d_site_source (j_data j) = d_site_source d)"
  | (ignored) "db e1 = db e" "uuid_next e1 = Suc (uuid_next e)"
      "r = get_existing_job_id (d_job_url d) e"
      "\<exists>j \<in> set (jobs (db e)). j_id j = uuid_next e \<or>
         (d_external_id (j_data j) = d_external_id d \<and> d_site_source (j_data j) = d_site_source d)"
proof (cases "list_ex (\<lambda>j. j_id j = uuid_next e \<or>
                        (d_external_id (j_data j) = d_external_id d \<and>
                         d_site_source (j_data j) = d_site_source d)) (jobs (db e))")
  case True
  with assms have "db e1 = db e" "uuid_next e1 = Suc (uuid_next e)"
      "r = get_existing_job_id (d_job_url d) e"
    by (auto simp add: save_job_to_db_def Let_def get_existing_job_id_def)
  moreover from True have "\<exists>j \<in> set (jobs (db e)). j_id j = uuid_next e \<or>
         (d_external_id (j_data j) = d_external_id d \<and> d_site_source (j_data j) = d_site_source d)"
    by (simp add: list_ex_iff)
  ultimately show ?thesis by (rule ignored)
next
  case False
  with assms have "r = Some (uuid_next e)"
      "jobs (db e1) = jobs (db e) @ [\<lparr>j_id = uuid_next e, j_data = d\<rparr>]"
      "user_jobs (db e1) = user_jobs (db e)" "uuid_next e1 = Suc (uuid_next e)"
    by (auto simp add: save_job_to_db_def Let_def)
  moreover from False have "\<forall>j \<in> set (jobs (db e)).
         \<not> (d_external_id (j_data j) = d_external_id d \<and> d_site_source (j_data j) = d_site_source d)"
    by (auto simp add: list_ex_iff)
  ultimately show ?thesis by (rule inserted)
qed

text \<open>
  \<open>create_user_job_relationship\<close> answers True, keeps the jobs, and, when the ids in the
  store are below the next uuid, leaves a row for the user and the job in \<open>user_jobs\<close>.
\<close>

lemma create_relationship_effect:
  assumes "create_user_job_relationship uid job_id score e = (b, e2)"
  shows "b" "jobs (db e2) = jobs (db e)" "uuid_next e2 = Suc (uuid_next e)"
    "set (user_jobs (db e)) \<subseteq> set (user_jobs (db e2))"
    "\<forall>uj \<in> set (user_jobs (db e2)) - set (user_jobs (db e)). uj_id uj = uuid_next e"
  using assms
  by (auto simp add: create_user_job_relationship_def Let_def split: if_splits)

lemma create_relationship_links:
  assumes "create_user_job_relationship uid job_id score e = (b, e2)"
    and "\<forall>uj \<in> set (user_jobs (db e)). uj_id uj < uuid_next e"
  shows "\<exists>uj \<in> set (user_jobs (db e2)). uj_user_id uj = uid \<and> uj_job_id uj = job_id"
proof (cases "list_ex (\<lambda>uj. uj_id uj = uuid_next e \<or> (uj_user_id uj = uid \<and> uj_job_id uj = job_id))
                (user_jobs (db e))")
  case True
  then obtain uj where uj: "uj \<in> set (user_jobs (db e))"
      "uj_id uj = uuid_next e \<or> (uj_user_id uj = uid \<and> uj_job_id uj = job_id)"
    by (auto simp add: list_ex_iff)
  with assms(2) have "uj_user_id uj = uid \<and> uj_job_id uj = job_id" by auto
  moreover from True assms(1) have "user_jobs (db e2) = user_jobs (db e)"
    by (auto simp add: create_user_job_relationship_def Let_def)
  ultimately show ?thesis using uj(1) by auto
next
  case False
  with assms(1) show ?thesis
    by (auto simp add: create_user_job_relationship_def Let_def)
qed

text \<open>What \<open>save_one\<close> does to a row with a URL, when the uuids are fresh.\<close>

lemma save_one_unfold:
  assumes "has_url job"
  shows "save_one uid job (new_jobs, e) =
     (case get_user_job_status uid (url_of job) e of
        Some existing_status \<Rightarrow> (new_jobs, e)
      | None \<Rightarrow>
          (case save_job_to_db (job_data_of (url_of job) job) e of
             (None, e1) \<Rightarrow> (new_jobs, e1)
           | (Some job_id, e1) \<Rightarrow>
               (case create_user_job_relationship uid job_id (quality_score job) e1 of
                  (relationship_created, e2) \<Rightarrow>
                    if relationship_created then (new_jobs @ [job], e2) else (new_jobs, e2))))"
  using assms by (simp add: save_one_def has_url_iff Let_def)

lemma find_SomeD: "find P xs = Some x \<Longrightarrow> x \<in> set xs \<and> P x"
  by (induction xs) (auto split: if_splits)

lemma get_existing_job_id_Some:
  assumes "get_existing_job_id url e = Some job_id"
  shows "\<exists>j \<in> set (jobs (db e)). j_id j = job_id \<and> d_job_url (j_data j) = url"
  using assms by (auto simp add: get_existing_job_id_def dest: find_SomeD)

lemma get_existing_job_id_None:
  assumes "get_existing_job_id url e = None"
  shows "\<forall>j \<in> set (jobs (db e)). d_job_url (j_data j) \<noteq> url"
  using assms by (auto simp add: get_existing_job_id_def find_None_iff)

lemma save_one_cases:
  assumes "has_url job" "fresh_uuids e" "save_one uid job (new_jobs, e) = (new', e')"
  obtains
    (skip) "linked uid (url_of job) e" "new' = new_jobs" "e' = e"
  | (fail) "\<not> linked uid (url_of job) e" "stuck (url_of job) e" "new' = new_jobs"
      "db e' = db e" "uuid_next e' = Suc (uuid_next e)"
  | (link) "\<not> settled uid (url_of job) e" "new' = new_jobs @ [job]"
      "linked uid (url_of job) e'"
      "set (jobs (db e)) \<subseteq> set (jobs (db e'))"
      "set (user_jobs (db e)) \<subseteq> set (user_jobs (db e'))"
      "\<forall>j \<in> set (jobs (db e')) - set (jobs (db e)). d_job_url (j_data j) = url_of job"
      "fresh_uuids e'"
proof (cases "linked uid (url_of job) e")
  case True
  then obtain st where "get_user_job_status uid (url_of job) e = Some st"
    by (auto simp add: linked_def)
  with assms(3) have "new' = new_jobs" "e' = e"
    by (simp_all add: save_one_unfold [OF assms(1)])
  with True show ?thesis by (rule skip)
next
  case False
  then have none: "get_user_job_status uid (url_of job) e = None"
    by (simp add: linked_def)
  let ?d = "job_data_of (url_of job) job"
  have d: "d_external_id ?d = url_of job" "d_job_url ?d = url_of job"
      "d_site_source ?d = ''linkedin''"
    by (simp_all add: job_data_of_def)
  from assms(2) have fr: "\<forall>j \<in> set (jobs (db e)). j_id j < uuid_next e"
      "\<forall>uj \<in> set (user_jobs (db e)). uj_id uj < uuid_next e"
    by (simp_all add: fresh_iff)
  obtain r e1 where s: "save_job_to_db ?d e = (r, e1)" by (cases "save_job_to_db ?d e")
  from s show ?thesis
  proof (cases rule: save_job_to_db_cases)
    case inserted
    obtain b e2 where c: "create_user_job_relationship uid (uuid_next e) (quality_score job) e1 = (b, e2)"
      by (cases "create_user_job_relationship uid (uuid_next e) (quality_score job) e1")
    note ce = create_relationship_effect [OF c]
    from assms(3) none s inserted(1) c ce(1)
    have res: "new' = new_jobs @ [job]" "e' = e2"
      by (simp_all add: save_one_unfold [OF assms(1)])
    have j2: "jobs (db e2) = jobs (db e) @ [\<lparr>j_id = uuid_next e, j_data = ?d\<rparr>]"
      using ce(2) inserted(2) by simp
    have "\<forall>uj \<in> set (user_jobs (db e1)). uj_id uj < uuid_next e1"
      using fr(2) inserted(3,4) by auto
    from create_relationship_links [OF c this]
    obtain uj where uj: "uj \<in> set (user_jobs (db e2))" "uj_user_id uj = uid"
        "uj_job_id uj = uuid_next e"
      by auto
    have l: "linked uid (url_of job) e2"
      unfolding linked_iff using uj j2 d(2) by auto
    have ns: "\<not> stuck (url_of job) e"
      unfolding stuck_iff using inserted(5) d by auto
    have f2: "fresh_uuids e2"
      unfolding fresh_iff using fr ce(3,4,5) j2 inserted(3,4) by (auto simp add: less_Suc_eq)
    show ?thesis
    proof (rule link)
      show "\<not> settled uid (url_of job) e" using False ns by (simp add: settled_def)
      show "new' = new_jobs @ [job]" by (rule res)
      show "linked uid (url_of job) e'" using l res by simp
      show "set (jobs (db e)) \<subseteq> set (jobs (db e'))" using j2 res by auto
      show "set (user_jobs (db e)) \<subseteq> set (user_jobs (db e'))"
        using ce(4) inserted(3) res by simp
      show "\<forall>j \<in> set (jobs (db e')) - set (jobs (db e)). d_job_url (j_data j) = url_of job"
        using j2 res d(2) by auto
      show "fresh_uuids e'" using f2 res by simp
    qed
  next
    case ignored
    from ignored(4) fr(1) d
    have conflict: "\<exists>j \<in> set (jobs (db e)). d_external_id (j_data j) = url_of job
        \<and> d_site_source (j_data j) = ''linkedin''"
      by fastforce
    show ?thesis
    proof (cases r)
      case None
      with assms(3) none s have res: "new' = new_jobs" "e' = e1"
        by (simp_all add: save_one_unfold [OF assms(1)])
      from None ignored(3) d(2) have "get_existing_job_id (url_of job) e = None" by simp
      then have "\<forall>j \<in> set (jobs (db e)). d_job_url (j_data j) \<noteq> url_of job"
        by (rule get_existing_job_id_None)
      with conflict have "stuck (url_of job) e" by (simp add: stuck_iff)
      with False show ?thesis using res ignored(1,2) by (intro fail) simp_all
    next
      case (Some job_id)
      with ignored(3) d(2) have "get_existing_job_id (url_of job) e = Some job_id" by simp
      from get_existing_job_id_Some [OF this]
      obtain j where j: "j \<in> set (jobs (db e))" "j_id j = job_id"
          "d_job_url (j_data j) = url_of job"
        by auto
      obtain b e2 where c: "create_user_job_relationship uid job_id (quality_score job) e1 = (b, e2)"
        by (cases "create_user_job_relationship uid job_id (quality_score job) e1")
      note ce = create_relationship_effect [OF c]
      from assms(3) none s Some c ce(1)
      have res: "new' = new_jobs @ [job]" "e' = e2"
        by (simp_all add: save_one_unfold [OF assms(1)])
      have "\<forall>uj \<in> set (user_jobs (db e1)). uj_id uj < uuid_next e1"
        using fr(2) ignored(1,2) by auto
      from create_relationship_links [OF c this]
      obtain uj where uj: "uj \<in> set (user_jobs (db e2))" "uj_user_id uj = uid"
          "uj_job_id uj = job_id"
        by auto
      have j2: "jobs (db e2) = jobs (db e)" using ce(2) ignored(1) by simp
      have l: "linked uid (url_of job) e2"
        unfolding linked_iff using uj j j2 by auto
      have ns: "\<not> stuck (url_of job) e"
        unfolding stuck_iff using j by auto
      have f2: "fresh_uuids e2"
        unfolding fresh_iff using fr ce(3,4,5) j2 ignored(1,2) by (auto simp add: less_Suc_eq)
      show ?thesis
      proof (rule link)
        show "\<not> settled uid (url_of job) e" using False ns by (simp add: settled_def)
        show "new' = new_jobs @ [job]" by (rule res)
        show "linked uid (url_of job) e'" using l res by simp
        show "set (jobs (db e)) \<subseteq> set (jobs (db e'))" using j2 res by simp
        show "set (user_jobs (db e)) \<subseteq> set (user_jobs (db e'))"
          using ce(4) ignored(1) res by simp
        show "\<forall>j \<in> set (jobs (db e')) - set (jobs (db e)). d_job_url (j_data j) = url_of job"
          using j2 res by simp
        show "fresh_uuids e'" using f2 res by simp
      qed
    qed
  qed
qed

lemma settled_mono:
  assumes "settled uid u e"
    and "set (jobs (db e)) \<subseteq> set (jobs (db e'))"
    and "set (user_jobs (db e)) \<subseteq> set (user_jobs (db e'))"
    and "\<forall>j \<in> set (jobs (db e')) - set (jobs (db e)). d_job_url (j_data j) \<noteq> u"
  shows "settled uid u e'"
proof (cases "linked uid u e")
  case True
  then have "linked uid u e'"
    unfolding linked_iff using assms(2,3) by blast
  then show ?thesis by (simp add: settled_def)
next
  case False
  with assms(1) have "stuck u e" by (simp add: settled_def)
  then have "stuck u e'"
    unfolding stuck_iff using assms(2,4) by blast
  then show ?thesis by (simp add: settled_def)
qed

lemma save_one_settled:
  assumes "has_url job" "fresh_uuids e" "save_one uid job (new_jobs, e) = (new', e')"
  shows "fresh_uuids e'"
    and "settled uid (url_of job) e'"
    and "settled uid u e \<Longrightarrow> settled uid u e'"
    and "settled uid (url_of job) e \<Longrightarrow> new' = new_jobs \<and> db e' = db e"
proof -
  show "fresh_uuids e'"
    using assms
  proof (cases rule: save_one_cases)
    case skip
    with assms(2) show ?thesis by simp
  next
    case fail
    with assms(2) show ?thesis by (auto simp add: fresh_iff)
  next
    case link
    then show ?thesis by simp
  qed
  show "settled uid (url_of job) e'"
    using assms
  proof (cases rule: save_one_cases)
    case skip
    then show ?thesis by (simp add: settled_def)
  next
    case fail
    then show ?thesis using settled_db [of e' e uid "url_of job"] by (simp add: settled_def)
  next
    case link
    then show ?thesis by (simp add: settled_def)
  qed
  show "settled uid u e'" if u: "settled uid u e"
    using assms
  proof (cases rule: save_one_cases)
    case skip
    with u show ?thesis by simp
  next
    case fail
    with u show ?thesis using settled_db [of e' e uid u] by simp
  next
    case link
    from link(1) u have "u \<noteq> url_of job" by auto
    with link(6) have "\<forall>j \<in> set (jobs (db e')) - set (jobs (db e)). d_job_url (j_data j) \<noteq> u"
      by auto
    with u link(4,5) show ?thesis by (rule settled_mono)
  qed
  show "new' = new_jobs \<and> db e' = db e" if s: "settled uid (url_of job) e"
    using assms
  proof (cases rule: save_one_cases)
    case skip
    then show ?thesis by simp
  next
    case fail
    then show ?thesis by simp
  next
    case link
    with s show ?thesis by simp
  qed
qed

text \<open>The loop settles the URL of every row it visits, and keeps what was settled.\<close>

lemma save_loop_settles:
  assumes "fresh_uuids e" "save_loop uid rows (new_jobs, e) = (new', e')"
  shows "fresh_uuids e' \<and> (\<forall>r \<in> set rows. has_url r \<longrightarrow> settled uid (url_of r) e')
         \<and> (\<forall>u. settled uid u e \<longrightarrow> settled uid u e')"
  using assms
proof (induction rows arbitrary: new_jobs e)
  case Nil
  then show ?case by simp
next
  case (Cons job rows)
  obtain n1 e1 where o: "save_one uid job (new_jobs, e) = (n1, e1)"
    by (cases "save_one uid job (new_jobs, e)")
  with Cons.prems(2) have l: "save_loop uid rows (n1, e1) = (new', e')" by simp
  show ?case
  proof (cases "has_url job")
    case False
    with o have "n1 = new_jobs" "e1 = e" by (simp_all add: save_one_no_url)
    with Cons.IH [of e n1] Cons.prems(1) l False show ?thesis by simp
  next
    case True
    note st = save_one_settled [OF True Cons.prems(1) o]
    from Cons.IH [OF st(1) l]
    have ih: "fresh_uuids e'" "\<forall>r \<in> set rows. has_url r \<longrightarrow> settled uid (url_of r) e'"
        "\<forall>u. settled uid u e1 \<longrightarrow> settled uid u e'"
      by simp_all
    from ih(3) st(2) have "settled uid (url_of job) e'" by simp
    moreover from ih(3) st(3) have "\<forall>u. settled uid u e \<longrightarrow> settled uid u e'" by blast
    ultimately show ?thesis using ih(1,2) by simp
  qed
qed

text \<open>A loop over rows whose URLs are all settled adds no row to either table.\<close>

lemma save_loop_settled_noop:
  assumes "fresh_uuids e" "\<forall>r \<in> set rows. has_url r \<longrightarrow> settled uid (url_of r) e"
    and "save_loop uid rows (new_jobs, e) = (new', e')"
  shows "new' = new_jobs \<and> db e' = db e"
  using assms
proof (induction rows arbitrary: e)
  case Nil
  then show ?case by simp
next
  case (Cons job rows)
  obtain n1 e1 where o: "save_one uid job (new_jobs, e) = (n1, e1)"
    by (cases "save_one uid job (new_jobs, e)")
  with Cons.prems(3) have l: "save_loop uid rows (n1, e1) = (new', e')" by simp
  show ?case
  proof (cases "has_url job")
    case False
    with o have "n1 = new_jobs" "e1 = e" by (simp_all add: save_one_no_url)
    with Cons.IH [of e] Cons.prems l show ?thesis by simp
  next
    case True
    note st = save_one_settled [OF True Cons.prems(1) o]
    from Cons.prems(2) True have "settled uid (url_of job) e" by simp
    from st(4) [OF this] have same: "n1 = new_jobs" "db e1 = db e" by simp_all
    have "\<forall>r \<in> set rows. has_url r \<longrightarrow> settled uid (url_of r) e1"
    proof (intro ballI impI)
      fix r
      assume "r \<in> set rows" "has_url r"
      with Cons.prems(2) have "settled uid (url_of r) e" by simp
      then show "settled uid (url_of r) e1"
        using settled_db [OF same(2), of uid "url_of r"] by simp
    qed
    from Cons.IH [OF st(1) this] l same show ?thesis by simp
  qed
qed

text \<open>The loop writes the two tables and draws uuids; it touches nothing else.\<close>

lemma save_one_frame:
  "outbox (snd (save_one uid job st)) = outbox (snd st)
   \<and> gateway (snd (save_one uid job st)) = gateway (snd st)
   \<and> email_configured (snd (save_one uid job st)) = email_configured (snd st)
   \<and> last_search_times (snd (save_one uid job st)) = last_search_times (snd st)
   \<and> users (db (snd (save_one uid job st))) = users (db (snd st))
   \<and> user_preferences (db (snd (save_one uid job st))) = user_preferences (db (snd st))"
  by (cases st)
    (simp add: save_one_def save_job_to_db_def create_user_job_relationship_def Let_def
      split: option.splits prod.splits)

lemma save_loop_frame:
  "outbox (snd (save_loop uid rows st)) = outbox (snd st)
   \<and> gateway (snd (save_loop uid rows st)) = gateway (snd st)
   \<and> email_configured (snd (save_loop uid rows st)) = email_configured (snd st)
   \<and> last_search_times (snd (save_loop uid rows st)) = last_search_times (snd st)
   \<and> users (db (snd (save_loop uid rows st))) = users (db (snd st))
   \<and> user_preferences (db (snd (save_loop uid rows st))) = user_preferences (db (snd st))"
proof (induction rows arbitrary: st)
  case Nil
  then show ?case by simp
next
  case (Cons job rows)
  from Cons.IH [of "save_one uid job st"] save_one_frame [of uid job st]
  show ?case by simp
qed

section \<open>Two cycles on the same answers of the source\<close>

lemma covered_iff: "covered xs ys \<longleftrightarrow> (\<forall>x \<in> set xs. \<exists>y \<in> set ys. no_better x y)"
  by (simp add: covered_def list_all_iff list_ex_iff)

lemma covered_Nil [simp]: "covered [] ys"
  by (simp add: covered_iff)

lemma covered_by_Nil: "covered xs [] \<Longrightarrow> xs = []"
  by (cases xs) (auto simp add: covered_iff)

lemma covered_append:
  assumes "covered xs ys" "covered xs' ys'"
  shows "covered (xs @ xs') (ys @ ys')"
  using assms by (auto simp add: covered_iff)

lemma covered_append_left:
  assumes "covered xs ys"
  shows "covered xs (ys @ ys')"
  using assms by (auto simp add: covered_iff)

lemma covered_filter:
  assumes "covered xs ys" "\<And>x y. no_better x y \<Longrightarrow> P x \<Longrightarrow> Q y"
  shows "covered (filter P xs) (filter Q ys)"
  using assms by (fastforce simp add: covered_iff)

lemma add_quality_scores_Nil_iff [simp]: "add_quality_scores c p j rows = [] \<longleftrightarrow> rows = []"
  by (cases rows) simp_all

text \<open>Scored at later readings of the clock, a frame is covered by itself scored earlier.\<close>

lemma covered_scores:
  assumes "\<And>j. c1 j \<le> c2 j"
  shows "covered (add_quality_scores c2 p j rows) (add_quality_scores c1 p j rows)"
proof (induction rows arbitrary: j)
  case Nil
  then show ?case by simp
next
  case (Cons row rows)
  have "no_better (row\<lparr>quality_score := calculate_quality_score (c2 j) row p\<rparr>)
                  (row\<lparr>quality_score := calculate_quality_score (c1 j) row p\<rparr>)"
    using score_antimono [OF assms, of j row p] by (simp add: no_better_def)
  with Cons.IH [of "Suc j"] show ?case by (auto simp add: covered_iff)
qed

lemma filter_covered:
  assumes "covered xs ys"
  shows "(case (filter_jobs_for_user re xs p, filter_jobs_for_user re ys p) of
            (Inr kept_x, Inr kept_y) \<Rightarrow> covered kept_x kept_y
          | (Inl ex, Inl ey) \<Rightarrow> xs \<noteq> [] \<and> ys \<noteq> []
          | (Inr kept_x, Inl ey) \<Rightarrow> xs = []
          | (Inl ex, Inr kept_y) \<Rightarrow> False)"
proof (cases "xs = []")
  case True
  then show ?thesis
    by (simp add: filter_jobs_for_user_def split: sum.splits)
next
  case False
  with assms have ys: "ys \<noteq> []" by (auto dest: covered_by_Nil)
  let ?thr = "\<lambda>j. linkedin_quality_threshold p \<le> quality_score j"
  let ?sal = "\<lambda>j. case salary_min j of None \<Rightarrow> True | Some s \<Rightarrow> min_salary p \<le> s"
  have t: "covered (filter ?thr xs) (filter ?thr ys)"
    using assms by (rule covered_filter) (simp add: no_better_def)
  have s: "covered (filter ?sal (filter ?thr xs)) (filter ?sal (filter ?thr ys))"
    using t by (rule covered_filter) (simp add: no_better_def)
  have ts: "covered (filter (\<lambda>j. \<not> search (title j)) (filter ?thr xs))
                    (filter (\<lambda>j. \<not> search (title j)) (filter ?thr ys))" for search
    using t by (rule covered_filter) (simp add: no_better_def)
  have ss: "covered (filter (\<lambda>j. \<not> search (title j)) (filter ?sal (filter ?thr xs)))
                    (filter (\<lambda>j. \<not> search (title j)) (filter ?sal (filter ?thr ys)))" for search
    using s by (rule covered_filter) (simp add: no_better_def)
  show ?thesis
  proof (cases "re (join ''|'' (exclude_keywords p))")
    case None
    with False ys t s show ?thesis
      by (simp add: filter_jobs_for_user_def Let_def del: filter_filter)
  next
    case (Some search)
    with False ys t s ts [of search] ss [of search] show ?thesis
      by (simp add: filter_jobs_for_user_def Let_def del: filter_filter)
  qed
qed

lemma drop_duplicates_subset: "set (drop_duplicates xs) \<subseteq> set xs"
  by (induction xs rule: drop_duplicates.induct) auto

lemma drop_duplicates_urls: "job_url ` set (drop_duplicates xs) = job_url ` set xs"
proof (induction xs rule: drop_duplicates.induct)
  case 1
  then show ?case by simp
next
  case (2 row rest)
  have "job_url ` set rest \<subseteq> insert (job_url row) (job_url ` {r \<in> set rest. job_url r \<noteq> job_url row})"
    by auto
  with 2 show ?case by auto
qed

text \<open>
  The searches of a second cycle, on the same answers of the source and with later
  readings of the clock, end when those of the first cycle do, and collect frames that
  are covered by the frames of the first.
\<close>

lemma search_pairs_covered:
  assumes up: "w_upstream w2 = w_upstream w1"
    and re: "w_re_compile w2 = w_re_compile w1"
    and clk: "\<And>k j. w_score_time w1 k j \<le> w_score_time w2 k j"
    and run1: "search_pairs w1 p pairs k acc1 n1 = Some (all1, m1)"
    and cov: "covered (concat acc2) (concat acc1)"
  shows "\<exists>all2 m2. search_pairs w2 p pairs k acc2 n2 = Some (all2, m2)
           \<and> covered (concat all2) (concat all1)"
  using run1 cov
proof (induction pairs arbitrary: k acc1 acc2 n1 n2)
  case Nil
  then show ?case by simp
next
  case (Cons pair rest)
  obtain keyword loc where pair: "pair = (keyword, loc)" by (cases pair)
  show ?case
  proof (cases "''linkedin'' \<in> set (sites_enabled p)")
    case False
    with Cons.prems(1) pair have "search_pairs w1 p rest (Suc k) acc1 n1 = Some (all1, m1)"
      by simp
    from Cons.IH [OF this Cons.prems(2), of n2] False pair show ?thesis by simp
  next
    case True
    let ?m = "method_1_guest_api (w_upstream w1 k) keyword loc 10
                (search_time_filter p) (work_type p)"
    from Cons.prems(1) True pair obtain found n where m: "?m = Some (found, n)"
      by (cases ?m) auto
    show ?thesis
    proof (cases "found = []")
      case e: True
      with Cons.prems(1) True pair m
      have "search_pairs w1 p rest (Suc k) acc1 (n1 + n) = Some (all1, m1)" by simp
      from Cons.IH [OF this Cons.prems(2), of "n2 + n"] True pair m e up show ?thesis by simp
    next
      case ne: False
      let ?x = "add_quality_scores (w_score_time w2 k) p 0 found"
      let ?y = "add_quality_scores (w_score_time w1 k) p 0 found"
      have c: "covered ?x ?y" by (rule covered_scores) (rule clk)
      note fc = filter_covered [OF c, of "w_re_compile w1" p]
      show ?thesis
      proof (cases "filter_jobs_for_user (w_re_compile w1) ?y p")
        case (Inl err1)
        with fc ne obtain err2 where f2: "filter_jobs_for_user (w_re_compile w1) ?x p = Inl err2"
          by (cases "filter_jobs_for_user (w_re_compile w1) ?x p") auto
        from Cons.prems(1) True pair m ne Inl
        have "search_pairs w1 p rest (Suc k) acc1 (n1 + n) = Some (all1, m1)" by simp
        from Cons.IH [OF this Cons.prems(2), of "n2 + n"] True pair m ne up re f2
        show ?thesis by simp
      next
        case (Inr kept1)
        with fc obtain kept2 where f2: "filter_jobs_for_user (w_re_compile w1) ?x p = Inr kept2"
            and k: "covered kept2 kept1"
          by (cases "filter_jobs_for_user (w_re_compile w1) ?x p") auto
        from Cons.prems(1) True pair m ne Inr
        have r: "search_pairs w1 p rest (Suc k) (acc1 @ [kept1]) (n1 + n) = Some (all1, m1)"
          by simp
        have "covered (concat (acc2 @ [kept2])) (concat (acc1 @ [kept1]))"
          using covered_append [OF Cons.prems(2) k] by simp
        from Cons.IH [OF r this, of "n2 + n"] True pair m ne up re f2
        show ?thesis by simp
      qed
    qed
  qed
qed

lemma no_better_url: "no_better x y \<Longrightarrow> url_of x = url_of y \<and> has_url x = has_url y"
  by (simp add: no_better_def url_of_def has_url_def)

lemma same_url: "job_url x = job_url y \<Longrightarrow> url_of x = url_of y \<and> has_url x = has_url y"
  by (simp add: url_of_def has_url_def)

lemma send_job_notifications_db:
  "db (send_job_notifications ok usr rows e) = db e
   \<and> uuid_next (send_job_notifications ok usr rows e) = uuid_next e"
  by (simp add: send_job_notifications_def)

lemma fresh_uuids_cong:
  assumes "db e' = db e" "uuid_next e' = uuid_next e"
  shows "fresh_uuids e' = fresh_uuids e"
  using assms by (simp add: fresh_uuids_def)

text \<open>After the first cycle has processed its frames, every URL in them is settled.\<close>

lemma process_results_settles:
  assumes "fresh_uuids e"
  shows "fresh_uuids (process_results w uid usr all_jobs e)"
    and "\<forall>r \<in> set (concat all_jobs). has_url r \<longrightarrow>
           settled uid (url_of r) (process_results w uid usr all_jobs e)"
    and "users (db (process_results w uid usr all_jobs e)) = users (db e)"
    and "user_preferences (db (process_results w uid usr all_jobs e)) = user_preferences (db e)"
proof -
  let ?c = "drop_duplicates (concat all_jobs)"
  obtain new_jobs e1 where sv: "save_loop uid ?c ([], e) = (new_jobs, e1)"
    by (cases "save_loop uid ?c ([], e)")
  have sj: "save_jobs_for_user uid ?c e = (new_jobs, e1)"
    using sv by (cases "?c = []") (simp_all add: save_jobs_for_user_def)
  note ls = save_loop_settles [OF assms sv]
  note fr = save_loop_frame [of uid ?c "([], e)"]
  let ?e' = "process_results w uid usr all_jobs e"
  have same: "db ?e' = (if all_jobs = [] then db e else db e1)"
      "uuid_next ?e' = (if all_jobs = [] then uuid_next e else uuid_next e1)"
    using sj by (simp_all add: process_results_def Let_def send_job_notifications_db)
  show "fresh_uuids ?e'"
  proof (cases "all_jobs = []")
    case True
    with assms show ?thesis by (simp add: process_results_def)
  next
    case False
    with same have "db ?e' = db e1" "uuid_next ?e' = uuid_next e1" by simp_all
    then have "fresh_uuids ?e' = fresh_uuids e1" by (rule fresh_uuids_cong)
    with ls show ?thesis by simp
  qed
  show "\<forall>r \<in> set (concat all_jobs). has_url r \<longrightarrow> settled uid (url_of r) ?e'"
  proof (intro ballI impI)
    fix r
    assume r: "r \<in> set (concat all_jobs)" "has_url r"
    then have ne: "all_jobs \<noteq> []" by auto
    from r(1) have "job_url r \<in> job_url ` set ?c" by (simp add: drop_duplicates_urls)
    then obtain r' where r': "r' \<in> set ?c" "job_url r' = job_url r" by auto
    with r(2) same_url [OF r'(2)] ls have "settled uid (url_of r) e1" by auto
    moreover from ne same have "db ?e' = db e1" by simp
    ultimately show "settled uid (url_of r) ?e'"
      using settled_db [of ?e' e1 uid "url_of r"] by simp
  qed
  have fr1: "users (db e1) = users (db e)" "user_preferences (db e1) = user_preferences (db e)"
    using fr unfolding sv by simp_all
  show "users (db ?e') = users (db e)"
    unfolding same(1) using fr1(1) by simp
  show "user_preferences (db ?e') = user_preferences (db e)"
    unfolding same(1) using fr1(2) by simp
qed

text \<open>A cycle whose frames only hold settled URLs writes no row and sends no digest.\<close>

lemma process_results_noop:
  assumes "fresh_uuids e"
    and "\<forall>r \<in> set (concat all_jobs). has_url r \<longrightarrow> settled uid (url_of r) e"
  shows "db (process_results w uid usr all_jobs e) = db e
         \<and> outbox (process_results w uid usr all_jobs e) = outbox e"
proof -
  let ?c = "drop_duplicates (concat all_jobs)"
  obtain new_jobs e1 where sv: "save_loop uid ?c ([], e) = (new_jobs, e1)"
    by (cases "save_loop uid ?c ([], e)")
  have sj: "save_jobs_for_user uid ?c e = (new_jobs, e1)"
    using sv by (cases "?c = []") (simp_all add: save_jobs_for_user_def)
  have "\<forall>r \<in> set ?c. has_url r \<longrightarrow> settled uid (url_of r) e"
    using assms(2) drop_duplicates_subset [of "concat all_jobs"] by blast
  from save_loop_settled_noop [OF assms(1) this sv]
  have n: "new_jobs = []" "db e1 = db e" by simp_all
  have "outbox e1 = outbox e"
    using save_loop_frame [of uid ?c "([], e)"] sv by simp
  with n sj show ?thesis by (simp add: process_results_def Let_def)
qed

text \<open>What a cycle that the rate gateway admitted has done.\<close>

lemma admitted_cycle:
  assumes "search_jobs_for_user w uid e = Some (e1, lg)" "acquired lg = [True]"
  obtains usr p g1 all_jobs reqs where
    "get_user_by_id uid e = Some usr" "u_is_active usr" "get_user_preferences uid e = Some p"
    "search_pairs w p (search_pairs_of p) 0 [] 0 = Some (all_jobs, reqs)"
    "e1 = (process_results w uid usr all_jobs (e\<lparr>gateway := g1\<rparr>))
            \<lparr>last_search_times :=
               (last_search_times (process_results w uid usr all_jobs (e\<lparr>gateway := g1\<rparr>)))
                 (uid \<mapsto> w_end_time w)\<rparr>"
proof (cases "get_user_by_id uid e")
  case None
  with assms show ?thesis by (auto simp add: search_jobs_for_user_def)
next
  case (Some usr)
  note usr = this
  show ?thesis
  proof (cases "u_is_active usr")
    case False
    with assms usr show ?thesis by (auto simp add: search_jobs_for_user_def)
  next
    case True
    note act = this
    show ?thesis
    proof (cases "get_user_preferences uid e")
      case None
      with assms usr act show ?thesis by (auto simp add: search_jobs_for_user_def)
    next
      case (Some p)
      note p = this
      obtain ok g1 where g: "check_rate_limit (w_gate_time w) (gateway e) = (ok, g1)"
        by (cases "check_rate_limit (w_gate_time w) (gateway e)")
      show ?thesis
      proof (cases ok)
        case False
        with assms usr act p g show ?thesis by (auto simp add: search_jobs_for_user_def)
      next
        case True
        note ok = this
        show ?thesis
        proof (cases "search_pairs w p (search_pairs_of p) 0 [] 0")
          case None
          with assms usr act p g ok show ?thesis by (auto simp add: search_jobs_for_user_def)
        next
          case (Some res)
          obtain all_jobs reqs where res: "res = (all_jobs, reqs)" by (cases res)
          from assms(1) usr act p g ok Some res
          have "e1 = (process_results w uid usr all_jobs (e\<lparr>gateway := g1\<rparr>))
            \<lparr>last_search_times :=
               (last_search_times (process_results w uid usr all_jobs (e\<lparr>gateway := g1\<rparr>)))
                 (uid \<mapsto> w_end_time w)\<rparr>"
            by (simp add: search_jobs_for_user_def Let_def)
          with usr act p Some res show ?thesis by (intro that) simp_all
        qed
      qed
    qed
  qed
qed

text \<open>
  A second cycle on the same answers of the source, from the state an admitted first
  cycle left, ends and writes neither table nor the outbox.
\<close>

lemma second_cycle_noop:
  assumes "fresh_uuids e0"
    and "w_upstream w2 = w_upstream w1"
    and "w_re_compile w2 = w_re_compile w1"
    and "\<forall>k j. w_score_time w1 k j \<le> w_score_time w2 k j"
    and "search_jobs_for_user w1 uid e0 = Some (e1, log1)"
    and "acquired log1 = [True]"
  shows "\<exists>e2 log2. search_jobs_for_user w2 uid e1 = Some (e2, log2)
           \<and> user_jobs (db e2) = user_jobs (db e1)
           \<and> jobs (db e2) = jobs (db e1)
           \<and> outbox e2 = outbox e1"
proof -
  from assms(5,6) obtain usr p g1 all1 reqs where
    u: "get_user_by_id uid e0 = Some usr" "u_is_active usr"
      and pr: "get_user_preferences uid e0 = Some p"
      and sp: "search_pairs w1 p (search_pairs_of p) 0 [] 0 = Some (all1, reqs)"
      and e1: "e1 = (process_results w1 uid usr all1 (e0\<lparr>gateway := g1\<rparr>))
            \<lparr>last_search_times :=
               (last_search_times (process_results w1 uid usr all1 (e0\<lparr>gateway := g1\<rparr>)))
                 (uid \<mapsto> w_end_time w1)\<rparr>"
    by (rule admitted_cycle)
  let ?m = "process_results w1 uid usr all1 (e0\<lparr>gateway := g1\<rparr>)"
  have f0: "fresh_uuids (e0\<lparr>gateway := g1\<rparr>)"
    using assms(1) by (simp add: fresh_uuids_def)
  note ps = process_results_settles [OF f0, where w = w1 and uid = uid and usr = usr
      and all_jobs = all1]
  have db1: "db e1 = db ?m" "uuid_next e1 = uuid_next ?m" "outbox e1 = outbox ?m"
    by (simp_all add: e1)
  have f1: "fresh_uuids e1"
    using fresh_uuids_cong [OF db1(1,2)] ps(1) by simp
  have s1: "\<forall>r \<in> set (concat all1). has_url r \<longrightarrow> settled uid (url_of r) e1"
  proof (intro ballI impI)
    fix r
    assume "r \<in> set (concat all1)" "has_url r"
    with ps(2) have "settled uid (url_of r) ?m" by blast
    then show "settled uid (url_of r) e1"
      using settled_db [OF db1(1), of uid "url_of r"] by simp
  qed
  have u1: "get_user_by_id uid e1 = Some usr"
    using u(1) ps(3) db1(1) by (simp add: get_user_by_id_def)
  have p1: "get_user_preferences uid e1 = Some p"
    using pr ps(4) db1(1) by (simp add: get_user_preferences_def)
  obtain ok g2 where g: "check_rate_limit (w_gate_time w2) (gateway e1) = (ok, g2)"
    by (cases "check_rate_limit (w_gate_time w2) (gateway e1)")
  show ?thesis
  proof (cases ok)
    case False
    with u1 u(2) p1 g show ?thesis
      by (simp add: search_jobs_for_user_def)
  next
    case True
    from assms(4) have clk: "\<And>k j. w_score_time w1 k j \<le> w_score_time w2 k j" by simp
    have "covered (concat ([]::job_row list list)) (concat [])" by simp
    from search_pairs_covered [OF assms(2,3) clk sp this, of 0]
    obtain all2 m2 where sp2: "search_pairs w2 p (search_pairs_of p) 0 [] 0 = Some (all2, m2)"
        and cov: "covered (concat all2) (concat all1)"
      by blast
    let ?g = "e1\<lparr>gateway := g2\<rparr>"
    have fg: "fresh_uuids ?g" using f1 by (simp add: fresh_uuids_def)
    have sg: "\<forall>r \<in> set (concat all2). has_url r \<longrightarrow> settled uid (url_of r) ?g"
    proof (intro ballI impI)
      fix r
      assume r: "r \<in> set (concat all2)" "has_url r"
      from cov r(1) obtain r1 where r1: "r1 \<in> set (concat all1)" "no_better r r1"
        unfolding covered_iff by blast
      with r(2) s1 no_better_url [OF r1(2)] have "settled uid (url_of r) e1" by auto
      then show "settled uid (url_of r) ?g"
        using settled_db [of ?g e1 uid "url_of r"] by simp
    qed
    from process_results_noop [OF fg sg, where w = w2 and usr = usr]
    have "db (process_results w2 uid usr all2 ?g) = db e1"
        "outbox (process_results w2 uid usr all2 ?g) = outbox e1"
      by simp_all
    with u1 u(2) p1 g True sp2 show ?thesis
      by (simp add: search_jobs_for_user_def Let_def)
  qed
qed

section \<open>Properties of the source adapter\<close>

text \<open>The number of requests only grows, and a pass through the loop body issues one.\<close>

lemma guest_api_loop_requests:
  assumes "guest_api_loop src kw loc mx tf wt jobs_acc start n = Some y"
  shows "n \<le> snd y \<and> (length jobs_acc < mx \<and> start < 200 \<longrightarrow> Suc n \<le> snd y)"
proof (rule guest_api_loop.raw_induct
    [where P = "\<lambda>src kw loc mx tf wt jobs_acc start n y.
       n \<le> snd y \<and> (length jobs_acc < mx \<and> start < 200 \<longrightarrow> Suc n \<le> snd y)", OF _ assms],
    goal_cases)
  case (1 loop src kw loc mx tf wt jobs_acc start n y)
  show ?case
  proof (cases "length jobs_acc < mx \<and> start < 200")
    case False
    with 1(2) show ?thesis by auto
  next
    case True
    let ?rq = "\<lparr>rq_keywords = kw, rq_location = loc, rq_start = start, rq_count = 25,
                rq_f_TPR = tf, rq_f_WT = wt\<rparr>"
    show ?thesis
    proof (cases "src n ?rq")
      case Status429
      with 1(2) True have "loop src kw loc mx tf wt jobs_acc start (Suc n) = Some y" by simp
      from 1(1) [OF this] show ?thesis by simp
    next
      case StatusOther
      with 1(2) True show ?thesis by auto
    next
      case (Status200 job_cards)
      show ?thesis
      proof (cases "job_cards = []")
        case e: True
        with 1(2) True Status200 show ?thesis by auto
      next
        case False
        with 1(2) True Status200
        have "loop src kw loc mx tf wt (add_cards mx jobs_acc job_cards) (start + 25) (Suc n)
                = Some y"
          by simp
        from 1(1) [OF this] show ?thesis by simp
      qed
    next
      case RequestFailed
      with 1(2) True show ?thesis by auto
    qed
  qed
qed

text \<open>Against a source that always answers 429 the loop never returns from its body.\<close>

lemma always_429_no_result:
  assumes "guest_api_loop src kw loc mx tf wt jobs_acc start n = Some y"
  shows "src = always_429 \<longrightarrow> \<not> (length jobs_acc < mx \<and> start < 200)"
proof (rule guest_api_loop.raw_induct
    [where P = "\<lambda>src kw loc mx tf wt jobs_acc start n y.
       src = always_429 \<longrightarrow> \<not> (length jobs_acc < mx \<and> start < 200)", OF _ assms],
    goal_cases)
  case (1 loop src kw loc mx tf wt jobs_acc start n y)
  show ?case
  proof (intro impI notI)
    assume a: "src = always_429" and c: "length jobs_acc < mx \<and> start < 200"
    with 1(2) have "loop src kw loc mx tf wt jobs_acc start (Suc n) = Some y"
      by (simp add: always_429_def)
    from 1(1) [OF this] a c show False by simp
  qed
qed

text \<open>
  When the source stops answering 429 from its \<open>N\<close>-th request on, the loop returns,
  after at most one request per remaining page besides the requests up to \<open>N\<close>.
\<close>

lemma pages_left:
  assumes "length (jobs_acc :: job_row list) < mx \<and> start < (200::nat)"
  shows "(224 - start) div 25 = (199 - start) div 25 + 1"
proof -
  from assms have e: "224 - start = (199 - start) + 25" by linarith
  have "((199 - start) + 25) div 25 = (199 - start) div 25 + 1"
    by (rule div_add_self2) simp
  then show ?thesis by (simp only: e)
qed

lemma guest_api_loop_returns:
  assumes "\<forall>i \<ge> N. \<forall>rq. src i rq \<noteq> Status429"
  shows "\<exists>found m. guest_api_loop src kw loc mx tf wt jobs_acc start n = Some (found, m)
           \<and> m \<le> max n N + (224 - start) div 25"
proof (induction "(N - n) + (200 - start)" arbitrary: jobs_acc start n rule: less_induct)
  case less
  let ?rq = "\<lparr>rq_keywords = kw, rq_location = loc, rq_start = start, rq_count = 25,
              rq_f_TPR = tf, rq_f_WT = wt\<rparr>"
  show ?case
  proof (cases "length jobs_acc < mx \<and> start < 200")
    case False
    then have "guest_api_loop src kw loc mx tf wt jobs_acc start n = Some (jobs_acc, n)"
      by (subst guest_api_loop.simps) auto
    then show ?thesis by simp
  next
    case True
    then have pages: "(224 - start) div 25 = (199 - start) div 25 + 1"
      by (rule pages_left)
    then have "1 \<le> (224 - start) div 25" by simp
    then have one: "Suc n \<le> max n N + (224 - start) div 25" by linarith
    show ?thesis
    proof (cases "src n ?rq")
      case Status429
      with assms have n: "n < N" by (meson not_le)
      then have "(N - Suc n) + (200 - start) < (N - n) + (200 - start)" by simp
      from less [OF this, of jobs_acc]
      obtain found m where r: "guest_api_loop src kw loc mx tf wt jobs_acc start (Suc n)
            = Some (found, m)" "m \<le> max (Suc n) N + (224 - start) div 25"
        by blast
      from True Status429 r(1)
      have "guest_api_loop src kw loc mx tf wt jobs_acc start n = Some (found, m)"
        by (subst guest_api_loop.simps) simp
      moreover from n r(2) have "m \<le> max n N + (224 - start) div 25" by simp
      ultimately show ?thesis by blast
    next
      case StatusOther
      with True have "guest_api_loop src kw loc mx tf wt jobs_acc start n = Some (jobs_acc, Suc n)"
        by (subst guest_api_loop.simps) simp
      with one show ?thesis by blast
    next
      case RequestFailed
      with True have "guest_api_loop src kw loc mx tf wt jobs_acc start n = Some (jobs_acc, Suc n)"
        by (subst guest_api_loop.simps) simp
      with one show ?thesis by blast
    next
      case (Status200 job_cards)
      show ?thesis
      proof (cases "job_cards = []")
        case e: True
        with True Status200
        have "guest_api_loop src kw loc mx tf wt jobs_acc start n = Some (jobs_acc, Suc n)"
          by (subst guest_api_loop.simps) simp
        with one show ?thesis by blast
      next
        case False
        from True have "(N - Suc n) + (200 - (start + 25)) < (N - n) + (200 - start)" by linarith
        from less [OF this, of "add_cards mx jobs_acc job_cards"]
        obtain found m where r: "guest_api_loop src kw loc mx tf wt
              (add_cards mx jobs_acc job_cards) (start + 25) (Suc n) = Some (found, m)"
            "m \<le> max (Suc n) N + (224 - (start + 25)) div 25"
          by blast
        from True Status200 False r(1)
        have "guest_api_loop src kw loc mx tf wt jobs_acc start n = Some (found, m)"
          by (subst guest_api_loop.simps) simp
        moreover have "(224 - start) div 25 = (224 - (start + 25)) div 25 + 1"
          using pages by simp
        with r(2) have "m \<le> max n N + (224 - start) div 25"
          by (auto simp add: max_def split: if_splits)
        ultimately show ?thesis by blast
      qed
    qed
  qed
qed

lemma demo_call:
  "method_1_guest_api demo_source kw loc 10 tf wt
     = Some ([demo_job ''Python Developer'' ''u/1'' 0, demo_job ''Clerk'' ''u/2'' 0], 3)"
proof -
  have 2: "guest_api_loop demo_source kw loc 10 tf wt
             [demo_job ''Python Developer'' ''u/1'' 0, demo_job ''Clerk'' ''u/2'' 0] 25 2
           = Some ([demo_job ''Python Developer'' ''u/1'' 0, demo_job ''Clerk'' ''u/2'' 0], 3)"
    by (subst guest_api_loop.simps) (simp add: demo_source_def)
  have 1: "guest_api_loop demo_source kw loc 10 tf wt [] 0 1
           = guest_api_loop demo_source kw loc 10 tf wt
               [demo_job ''Python Developer'' ''u/1'' 0, demo_job ''Clerk'' ''u/2'' 0] 25 2"
    by (subst guest_api_loop.simps) (simp add: demo_source_def numeral_2_eq_2)
  have 0: "guest_api_loop demo_source kw loc 10 tf wt [] 0 0
           = guest_api_loop demo_source kw loc 10 tf wt [] 0 1"
    by (subst guest_api_loop.simps) (simp add: demo_source_def)
  show ?thesis unfolding method_1_guest_api_def 0 1 2 ..
qed

text \<open>
  C7, as the source has it. On status 429 the loop runs again with the same list, the
  same offset and so the same request, and nothing counts these runs. The call returns
  when the source stops answering 429: if it does so from its \<open>N\<close>-th request on, the call
  ends after at most \<open>N + 8\<close> requests, since every other answer ends the loop or moves
  the offset 25 further towards 200.
\<close>

theorem guest_api_retries:
  "(length jobs_acc < mx \<and> start < 200
      \<and> src n \<lparr>rq_keywords = kw, rq_location = loc, rq_start = start, rq_count = 25,
                rq_f_TPR = tf, rq_f_WT = wt\<rparr> = Status429
     \<longrightarrow> guest_api_loop src kw loc mx tf wt jobs_acc start n
         = guest_api_loop src kw loc mx tf wt jobs_acc start (Suc n))
   \<and> ((\<forall>i \<ge> N. \<forall>rq. src i rq \<noteq> Status429)
     \<longrightarrow> (\<exists>found m. method_1_guest_api src kw loc mx tf wt = Some (found, m) \<and> m \<le> N + 8))"
proof (intro conjI impI)
  assume "length jobs_acc < mx \<and> start < 200
      \<and> src n \<lparr>rq_keywords = kw, rq_location = loc, rq_start = start, rq_count = 25,
                rq_f_TPR = tf, rq_f_WT = wt\<rparr> = Status429"
  then show "guest_api_loop src kw loc mx tf wt jobs_acc start n
         = guest_api_loop src kw loc mx tf wt jobs_acc start (Suc n)"
    by (subst guest_api_loop.simps) simp
next
  assume "\<forall>i \<ge> N. \<forall>rq. src i rq \<noteq> Status429"
  from guest_api_loop_returns [OF this, of kw loc mx tf wt "[]" 0 0]
  show "\<exists>found m. method_1_guest_api src kw loc mx tf wt = Some (found, m) \<and> m \<le> N + 8"
    by (simp add: method_1_guest_api_def)
qed

text \<open>
  The source that answers 429 once: the first request is repeated, and the call returns
  two postings after three requests.
\<close>

theorem guest_api_retries_witness:
  "guest_api_loop demo_source ''python'' ''Remote'' 10 ''r3600'' ''2'' [] 0 0
     = guest_api_loop demo_source ''python'' ''Remote'' 10 ''r3600'' ''2'' [] 0 (Suc 0)
   \<and> method_1_guest_api demo_source ''python'' ''Remote'' 10 ''r3600'' ''2''
     = Some ([demo_job ''Python Developer'' ''u/1'' 0, demo_job ''Clerk'' ''u/2'' 0], 3)
   \<and> (3::nat) \<le> 1 + 8"
proof -
  have a: "length ([]::job_row list) < 10 \<and> (0::nat) < 200
      \<and> demo_source 0 \<lparr>rq_keywords = ''python'', rq_location = ''Remote'', rq_start = 0,
           rq_count = 25, rq_f_TPR = ''r3600'', rq_f_WT = ''2''\<rparr> = Status429"
    by (simp add: demo_source_def)
  have b: "\<forall>i \<ge> 1. \<forall>rq. demo_source i rq \<noteq> Status429"
    by (simp add: demo_source_def)
  from guest_api_retries [of "[]" 10 0 demo_source 0 "''python''" "''Remote''" "''r3600''" "''2''" 1]
    a b demo_call [of "''python''" "''Remote''" "''r3600''" "''2''"]
  show ?thesis by simp
qed

text \<open>
  Against a source that answers every request with 429 the call never returns: the
  request is retried without end.
\<close>

theorem guest_api_counterexample:
  "method_1_guest_api always_429 ''python'' ''Remote'' 10 ''r3600'' ''2'' = None"
proof (cases "method_1_guest_api always_429 ''python'' ''Remote'' 10 ''r3600'' ''2''")
  case None
  then show ?thesis .
next
  case (Some y)
  then have "guest_api_loop always_429 ''python'' ''Remote'' 10 ''r3600'' ''2'' [] 0 0 = Some y"
    by (simp add: method_1_guest_api_def)
  from always_429_no_result [OF this] show ?thesis by simp
qed

section \<open>The example cycle\<close>

lemma demo_scores:
  "calculate_quality_score 0 (demo_job ''Python Developer'' ''u/1'' 0) demo_prefs = 90"
  "calculate_quality_score 0 (demo_job ''Clerk'' ''u/2'' 0) demo_prefs = 70"
  by (code_simp)+

lemma demo_job_score: "(demo_job t u s)\<lparr>quality_score := q\<rparr> = demo_job t u q"
  by (simp add: demo_job_def)

lemma demo_filtered:
  "filter_jobs_for_user re
     [demo_job ''Python Developer'' ''u/1'' 90, demo_job ''Clerk'' ''u/2'' 70] demo_prefs
   = Inr [demo_job ''Python Developer'' ''u/1'' 90, demo_job ''Clerk'' ''u/2'' 70]"
  by (simp add: filter_jobs_for_user_def demo_prefs_def demo_job_def Let_def)

lemma demo_pairs:
  "search_pairs_of demo_prefs = [(''python'', ''Remote''), (''developer'', ''Remote'')]"
  by (simp add: search_pairs_of_def demo_prefs_def)

lemma demo_search:
  assumes "w_upstream w = (\<lambda>k. demo_source)" "w_score_time w = (\<lambda>k j. 0)"
  shows "search_pairs w demo_prefs [(''python'', ''Remote''), (''developer'', ''Remote'')] 0 [] 0
   = Some ([[demo_job ''Python Developer'' ''u/1'' 90, demo_job ''Clerk'' ''u/2'' 70],
            [demo_job ''Python Developer'' ''u/1'' 90, demo_job ''Clerk'' ''u/2'' 70]], 6)"
proof -
  have l: "''linkedin'' \<in> set (sites_enabled demo_prefs)" by (simp add: demo_prefs_def)
  show ?thesis
    by (simp add: l assms demo_call demo_scores demo_job_score demo_filtered)
qed

lemma demo_combined:
  "drop_duplicates (concat [[demo_job ''Python Developer'' ''u/1'' 90, demo_job ''Clerk'' ''u/2'' 70],
            [demo_job ''Python Developer'' ''u/1'' 90, demo_job ''Clerk'' ''u/2'' 70]])
   = [demo_job ''Python Developer'' ''u/1'' 90, demo_job ''Clerk'' ''u/2'' 70]"
  by (simp add: demo_job_def)

lemma demo_saved:
  "save_jobs_for_user ''u1''
     [demo_job ''Python Developer'' ''u/1'' 90, demo_job ''Clerk'' ''u/2'' 70]
     (demo_engine\<lparr>gateway := g\<rparr>)
   = ([demo_job ''Python Developer'' ''u/1'' 90, demo_job ''Clerk'' ''u/2'' 70],
      demo_engine\<lparr>gateway := g, uuid_next := 4,
        db := (db demo_engine)\<lparr>
          jobs := [\<lparr>j_id = 0, j_data = job_data_of ''u/1'' (demo_job ''Python Developer'' ''u/1'' 90)\<rparr>,
                   \<lparr>j_id = 2, j_data = job_data_of ''u/2'' (demo_job ''Clerk'' ''u/2'' 70)\<rparr>],
          user_jobs :=
            [\<lparr>uj_id = 1, uj_user_id = ''u1'', uj_job_id = 0, uj_match_score = 90,
              uj_is_notified = False, uj_is_applied = False, uj_is_saved = False,
              uj_is_hidden = False\<rparr>,
             \<lparr>uj_id = 3, uj_user_id = ''u1'', uj_job_id = 2, uj_match_score = 70,
              uj_is_notified = False, uj_is_applied = False, uj_is_saved = False,
              uj_is_hidden = False\<rparr>]\<rparr>\<rparr>)"
  by (simp add: save_jobs_for_user_def save_one_def save_job_to_db_def
      create_user_job_relationship_def get_user_job_status_def get_existing_job_id_def
      demo_engine_def demo_job_def url_of_def job_data_of_def Let_def)

lemma demo_cycle:
  "search_jobs_for_user (demo_world\<lparr>w_smtp_ok := ok\<rparr>) ''u1'' demo_engine
   = Some (demo_engine_after ok, \<lparr>acquired = [True], requests = 6\<rparr>)"
proof -
  have u: "get_user_by_id ''u1'' demo_engine = Some demo_user" "u_is_active demo_user"
      "u_email demo_user = ''u1@example.org''"
    by (simp_all add: get_user_by_id_def demo_engine_def demo_user_def)
  have p: "get_user_preferences ''u1'' demo_engine = Some demo_prefs"
    by (simp add: get_user_preferences_def demo_engine_def demo_prefs_def)
  have g: "check_rate_limit (w_gate_time demo_world) (gateway demo_engine)
      = (True, \<lparr>linkedin_requests_per_minute = 10, linkedin_last_requests = [0]\<rparr>)"
    by (simp add: check_rate_limit_def demo_world_def demo_engine_def)
  have s: "search_pairs (demo_world\<lparr>w_smtp_ok := b\<rparr>) demo_prefs (search_pairs_of demo_prefs) 0 [] 0
      = Some ([[demo_job ''Python Developer'' ''u/1'' 90, demo_job ''Clerk'' ''u/2'' 70],
               [demo_job ''Python Developer'' ''u/1'' 90, demo_job ''Clerk'' ''u/2'' 70]], 6)" for b
    unfolding demo_pairs by (rule demo_search) (simp_all add: demo_world_def)
  have e: "email_configured demo_engine" "outbox demo_engine = []"
      "last_search_times demo_engine = Map.empty"
    by (simp_all add: demo_engine_def)
  have pr: "process_results (demo_world\<lparr>w_smtp_ok := b\<rparr>) ''u1'' demo_user
        [[demo_job ''Python Developer'' ''u/1'' 90, demo_job ''Clerk'' ''u/2'' 70],
         [demo_job ''Python Developer'' ''u/1'' 90, demo_job ''Clerk'' ''u/2'' 70]]
        (demo_engine\<lparr>gateway := \<lparr>linkedin_requests_per_minute = 10,
            linkedin_last_requests = [0]\<rparr>\<rparr>)
      = (demo_engine_after b)\<lparr>last_search_times := Map.empty\<rparr>" for b
    unfolding process_results_def demo_combined Let_def demo_saved
    by (simp add: send_job_notifications_def u e demo_engine_after_def demo_world_def)
  have t: "w_end_time demo_world = 0"
    by (simp add: demo_world_def)
  have l: "(demo_engine_after b)\<lparr>last_search_times := [''u1'' \<mapsto> 0]\<rparr> = demo_engine_after b" for b
    by (simp add: demo_engine_after_def)
  have "search_jobs_for_user (demo_world\<lparr>w_smtp_ok := b\<rparr>) ''u1'' demo_engine
   = Some (demo_engine_after b, \<lparr>acquired = [True], requests = 6\<rparr>)" for b
    by (simp add: search_jobs_for_user_def u(1,2) p g s pr t l Let_def)
  then show ?thesis .
qed

section \<open>The cycle as a whole\<close>

lemma demo_world_smtp: "demo_world\<lparr>w_smtp_ok := True\<rparr> = demo_world"
  by (simp add: demo_world_def)

lemma demo_fresh: "fresh_uuids demo_engine"
  by (simp add: fresh_uuids_def demo_engine_def)

text \<open>
  C1. A cycle of a user that the rate gateway admitted has run from a store with fresh
  uuids. A second cycle of the same user, from the state the first one left, with the
  same answers of the source and the same regular-expression library, and with clock
  readings that are not earlier, ends, inserts no row into \<open>user_jobs\<close> or \<open>jobs\<close> and
  hands no digest to the SMTP server, whatever the server would answer: every URL the
  second cycle presents is already linked to the user (or cannot be stored at all), so
  the net-new frame is empty and the notification is not called.
\<close>

theorem second_cycle_idempotent:
  assumes "fresh_uuids e0"
    and "w_upstream w2 = w_upstream w1"
    and "w_re_compile w2 = w_re_compile w1"
    and "\<forall>k j. w_score_time w1 k j \<le> w_score_time w2 k j"
    and "search_jobs_for_user w1 uid e0 = Some (e1, log1)"
    and "acquired log1 = [True]"
  shows "\<exists>e2 log2. search_jobs_for_user w2 uid e1 = Some (e2, log2)
           \<and> user_jobs (db e2) = user_jobs (db e1)
           \<and> jobs (db e2) = jobs (db e1)
           \<and> outbox e2 = outbox e1"
  using assms by (rule second_cycle_noop)

text \<open>
  The example user on the example source: the first cycle links two postings and sends
  one digest, the second cycle, on the same answers, adds nothing.
\<close>

theorem second_cycle_idempotent_witness:
  "search_jobs_for_user demo_world ''u1'' demo_engine
     = Some (demo_engine_after True, \<lparr>acquired = [True], requests = 6\<rparr>)
   \<and> length (user_jobs (db (demo_engine_after True))) = 2
   \<and> length (outbox (demo_engine_after True)) = 1
   \<and> (\<exists>e2 log2. search_jobs_for_user demo_world ''u1'' (demo_engine_after True) = Some (e2, log2)
         \<and> user_jobs (db e2) = user_jobs (db (demo_engine_after True))
         \<and> jobs (db e2) = jobs (db (demo_engine_after True))
         \<and> outbox e2 = outbox (demo_engine_after True))"
proof -
  have c: "search_jobs_for_user demo_world ''u1'' demo_engine
     = Some (demo_engine_after True, \<lparr>acquired = [True], requests = 6\<rparr>)"
    using demo_cycle [of True] by (simp add: demo_world_smtp)
  have a: "acquired \<lparr>acquired = [True], requests = 6\<rparr> = [True]" by simp
  have k: "\<forall>k j. w_score_time demo_world k j \<le> w_score_time demo_world k j" by simp
  from second_cycle_idempotent [OF demo_fresh refl refl k c a]
  have "\<exists>e2 log2. search_jobs_for_user demo_world ''u1'' (demo_engine_after True) = Some (e2, log2)
         \<and> user_jobs (db e2) = user_jobs (db (demo_engine_after True))
         \<and> jobs (db e2) = jobs (db (demo_engine_after True))
         \<and> outbox e2 = outbox (demo_engine_after True)" .
  moreover have "length (user_jobs (db (demo_engine_after True))) = 2"
      "length (outbox (demo_engine_after True)) = 1"
    by (simp_all add: demo_engine_after_def)
  ultimately show ?thesis using c by blast
qed

text \<open>
  C2, on the example user (the claim does not hold on the source). When the SMTP server
  accepts the digest, the two links of its postings still have \<open>is_notified\<close> unset after
  the cycle: the loop that should mark them is empty. When the server refuses the
  digest, the links exist all the same, so the next cycle, on the same answers of the
  source and with a server that accepts, finds nothing new and sends nothing: the two
  postings are never delivered.
\<close>

theorem notified_never_marked:
  "search_jobs_for_user demo_world ''u1'' demo_engine
     = Some (demo_engine_after True, \<lparr>acquired = [True], requests = 6\<rparr>)
   \<and> map fst (outbox (demo_engine_after True)) = [''u1@example.org'']
   \<and> map uj_is_notified (user_jobs (db (demo_engine_after True))) = [False, False]
   \<and> search_jobs_for_user (demo_world\<lparr>w_smtp_ok := False\<rparr>) ''u1'' demo_engine
     = Some (demo_engine_after False, \<lparr>acquired = [True], requests = 6\<rparr>)
   \<and> outbox (demo_engine_after False) = []
   \<and> (\<exists>e2 log2. search_jobs_for_user demo_world ''u1'' (demo_engine_after False) = Some (e2, log2)
         \<and> outbox e2 = [])"
proof -
  have c: "search_jobs_for_user demo_world ''u1'' demo_engine
     = Some (demo_engine_after True, \<lparr>acquired = [True], requests = 6\<rparr>)"
    using demo_cycle [of True] by (simp add: demo_world_smtp)
  have f: "search_jobs_for_user (demo_world\<lparr>w_smtp_ok := False\<rparr>) ''u1'' demo_engine
     = Some (demo_engine_after False, \<lparr>acquired = [True], requests = 6\<rparr>)"
    by (rule demo_cycle)
  have a: "acquired \<lparr>acquired = [True], requests = 6\<rparr> = [True]" by simp
  have k: "\<forall>k j. w_score_time (demo_world\<lparr>w_smtp_ok := False\<rparr>) k j \<le> w_score_time demo_world k j"
    by simp
  have u: "w_upstream demo_world = w_upstream (demo_world\<lparr>w_smtp_ok := False\<rparr>)"
      "w_re_compile demo_world = w_re_compile (demo_world\<lparr>w_smtp_ok := False\<rparr>)"
    by simp_all
  have o: "outbox (demo_engine_after False) = []"
      "map fst (outbox (demo_engine_after True)) = [''u1@example.org'']"
      "map uj_is_notified (user_jobs (db (demo_engine_after True))) = [False, False]"
    by (simp_all add: demo_engine_after_def)
  from second_cycle_noop [OF demo_fresh u k f a] o(1)
  have "\<exists>e2 log2. search_jobs_for_user demo_world ''u1'' (demo_engine_after False) = Some (e2, log2)
         \<and> outbox e2 = []"
    by auto
  with c f o show ?thesis by blast
qed

section \<open>Requests and the rate gateway\<close>

lemma method_1_requests:
  assumes "method_1_guest_api src kw loc 10 tf wt = Some (found, n)"
  shows "1 \<le> n"
  using guest_api_loop_requests [of src kw loc 10 tf wt "[]" 0 0 "(found, n)"] assms
  by (simp add: method_1_guest_api_def)

lemma search_pairs_requests:
  assumes "search_pairs w p pairs k acc n = Some (all_jobs, m)"
    and "''linkedin'' \<in> set (sites_enabled p)"
  shows "n + length pairs \<le> m"
  using assms(1)
proof (induction pairs arbitrary: k acc n)
  case Nil
  then show ?case by simp
next
  case (Cons pair rest)
  obtain keyword loc where pair: "pair = (keyword, loc)" by (cases pair)
  let ?m = "method_1_guest_api (w_upstream w k) keyword loc 10 (search_time_filter p) (work_type p)"
  from Cons.prems assms(2) pair obtain found r where m: "?m = Some (found, r)"
    by (cases ?m) auto
  from method_1_requests [OF m] have r: "1 \<le> r" .
  from Cons.prems assms(2) pair m
  obtain acc' where "search_pairs w p rest (Suc k) acc' (n + r) = Some (all_jobs, m)"
    by (auto split: if_splits sum.splits)
  from Cons.IH [OF this] r show ?case by simp
qed

lemma cycle_log_cases:
  assumes "search_jobs_for_user w uid e = Some (e', lg)"
  shows "(acquired lg = [] \<and> requests lg = 0 \<and> e' = e)
       \<or> (acquired lg = [False] \<and> requests lg = 0 \<and> db e' = db e)
       \<or> (acquired lg = [True]
           \<and> (\<exists>p all_jobs. get_user_preferences uid e = Some p
                 \<and> search_pairs w p (search_pairs_of p) 0 [] 0 = Some (all_jobs, requests lg)))"
proof (cases "get_user_by_id uid e")
  case None
  with assms show ?thesis by (auto simp add: search_jobs_for_user_def)
next
  case (Some usr)
  note usr = this
  show ?thesis
  proof (cases "u_is_active usr")
    case False
    with assms usr show ?thesis by (auto simp add: search_jobs_for_user_def)
  next
    case True
    note act = this
    show ?thesis
    proof (cases "get_user_preferences uid e")
      case None
      with assms usr act show ?thesis by (auto simp add: search_jobs_for_user_def)
    next
      case (Some p)
      note p = this
      obtain ok g1 where g: "check_rate_limit (w_gate_time w) (gateway e) = (ok, g1)"
        by (cases "check_rate_limit (w_gate_time w) (gateway e)")
      show ?thesis
      proof (cases ok)
        case False
        with assms usr act p g show ?thesis by (auto simp add: search_jobs_for_user_def)
      next
        case True
        note ok = this
        show ?thesis
        proof (cases "search_pairs w p (search_pairs_of p) 0 [] 0")
          case None
          with assms usr act p g ok show ?thesis by (auto simp add: search_jobs_for_user_def)
        next
          case (Some res)
          obtain all_jobs reqs where res: "res = (all_jobs, reqs)" by (cases res)
          from assms usr act p g ok Some res
          have "acquired lg = [True]" "requests lg = reqs"
            by (auto simp add: search_jobs_for_user_def Let_def)
          with p Some res show ?thesis by simp
        qed
      qed
    qed
  qed
qed

text \<open>
  C4, as the source has it. A cycle asks the rate gateway at most once, before any
  request. When the answer is not true (or the cycle ends before asking) the cycle
  issues no request. When the answer is true and \<open>'linkedin'\<close> is enabled, the cycle
  calls the adapter for every pair of keyword and location, and each call issues at
  least one request: the requests of a cycle are not bounded by its one admission.
\<close>

theorem cycle_requests:
  assumes "search_jobs_for_user w uid e = Some (e', lg)"
  shows "length (acquired lg) \<le> 1
    \<and> (acquired lg \<noteq> [True] \<longrightarrow> requests lg = 0)
    \<and> (\<forall>p. acquired lg = [True] \<and> get_user_preferences uid e = Some p
            \<and> ''linkedin'' \<in> set (sites_enabled p)
          \<longrightarrow> length (search_pairs_of p) \<le> requests lg)"
proof -
  note c = cycle_log_cases [OF assms]
  have "length (acquired lg) \<le> 1" using c by auto
  moreover have "acquired lg \<noteq> [True] \<longrightarrow> requests lg = 0" using c by auto
  moreover have "\<forall>p. acquired lg = [True] \<and> get_user_preferences uid e = Some p
            \<and> ''linkedin'' \<in> set (sites_enabled p)
          \<longrightarrow> length (search_pairs_of p) \<le> requests lg"
  proof (intro allI impI)
    fix p
    assume a: "acquired lg = [True] \<and> get_user_preferences uid e = Some p
            \<and> ''linkedin'' \<in> set (sites_enabled p)"
    with c obtain all_jobs where
      "search_pairs w p (search_pairs_of p) 0 [] 0 = Some (all_jobs, requests lg)"
      by auto
    from search_pairs_requests [OF this] a show "length (search_pairs_of p) \<le> requests lg"
      by simp
  qed
  ultimately show ?thesis by blast
qed

text \<open>The example cycle: one admission, two pairs, six requests.\<close>

theorem cycle_requests_witness:
  "search_jobs_for_user demo_world ''u1'' demo_engine
     = Some (demo_engine_after True, \<lparr>acquired = [True], requests = 6\<rparr>)
   \<and> length (search_pairs_of demo_prefs) = 2
   \<and> length (search_pairs_of demo_prefs) \<le> requests \<lparr>acquired = [True], requests = 6\<rparr>"
proof -
  have c: "search_jobs_for_user demo_world ''u1'' demo_engine
     = Some (demo_engine_after True, \<lparr>acquired = [True], requests = 6\<rparr>)"
    using demo_cycle [of True] by (simp add: demo_world_smtp)
  have p: "get_user_preferences ''u1'' demo_engine = Some demo_prefs"
    by (simp add: get_user_preferences_def demo_engine_def demo_prefs_def)
  have l: "''linkedin'' \<in> set (sites_enabled demo_prefs)" by (simp add: demo_prefs_def)
  from cycle_requests [OF c] p l
  have "length (search_pairs_of demo_prefs) \<le> requests \<lparr>acquired = [True], requests = 6\<rparr>"
    by simp
  with c show ?thesis by (simp add: demo_pairs)
qed

text \<open>
  The example cycle issues six requests to the source on one true answer of the rate
  gateway.
\<close>

theorem cycle_requests_counterexample:
  "map_option snd (search_jobs_for_user demo_world ''u1'' demo_engine)
     = Some \<lparr>acquired = [True], requests = 6\<rparr>
   \<and> count_true (acquired \<lparr>acquired = [True], requests = 6\<rparr>) = 1"
  using demo_cycle [of True] by (simp add: demo_world_smtp count_true_def)

section \<open>Properties of the schedule\<close>

lemma schedule_loop_hash:
  "schedule_loop hash1 now e us registry = schedule_loop hash2 now e us registry"
  by (induction us arbitrary: registry) (simp_all add: py_mod_def Let_def split: option.splits)

text \<open>
  C9, on the source (the claim does not hold on it). The jobs that
  \<open>schedule_user_searches\<close> registers do not depend on the hash of the user id: the
  source computes \<open>hash(user.id) % frequency\<close> and does not use it. For the example
  user, with frequency 15 and a hash of 7, the job's first run is 15 minutes after
  registration, where the stagger asks for 22.
\<close>

theorem stagger_not_applied:
  "schedule_user_searches hash1 now e = schedule_user_searches hash2 now e
   \<and> schedule_user_searches demo_hash 0 demo_engine
       = Inr [\<lparr>sj_interval_minutes = 15, sj_user_id = ''u1'', sj_tag = ''user_u1'',
               sj_next_run = 15 * minute\<rparr>]
   \<and> staggered_first_run demo_hash 0 ''u1'' 15 = 22 * minute"
proof -
  have "schedule_user_searches hash1 now e = schedule_user_searches hash2 now e"
    by (simp add: schedule_user_searches_def schedule_loop_hash [of hash1 now e _ "[]" hash2])
  moreover have "schedule_user_searches demo_hash 0 demo_engine
       = Inr [\<lparr>sj_interval_minutes = 15, sj_user_id = ''u1'', sj_tag = ''user_u1'',
               sj_next_run = 15 * minute\<rparr>]"
    by (simp add: schedule_user_searches_def demo_engine_def demo_user_def demo_prefs_def
        get_user_preferences_def py_mod_def demo_hash_def Let_def)
  moreover have "staggered_first_run demo_hash 0 ''u1'' 15 = 22 * minute"
    by (simp add: staggered_first_run_def demo_hash_def)
  ultimately show ?thesis by blast
qed

end
